theory Spec2Isabelle
  imports Main
begin

section \<open>Python strings\<close>

text \<open>
  A Python \<open>str\<close> is modelled as a \<open>string\<close>, one \<open>char\<close> per code point, so the
  model covers text of the code points 0 to 255. The built-in string methods the
  screenplay tools call are written out below as Python defines them on these code
  points: which characters are blank, lower case, upper case, word characters and line
  boundaries is taken from Python's tables. One departure remains. The upper-case forms
  of U+00B5, U+00DF and U+00FF are U+039C, \<open>SS\<close> and U+0178, none of them a single character
  below 256; \<open>to_upper\<close> leaves these three characters as they are, so \<open>upper\<close> is exact
  for text without them.
\<close>

definition ascii_lowercase :: string where
  "ascii_lowercase = ''abcdefghijklmnopqrstuvwxyz''"

definition ascii_uppercase :: string where
  "ascii_uppercase = ''ABCDEFGHIJKLMNOPQRSTUVWXYZ''"

definition digits :: string where
  "digits = ''0123456789''"

text \<open>
  The lower-case letters U+00E0..U+00FE (without the division sign U+00F7) and, in the
  same order, their upper-case forms U+00C0..U+00DE (without the multiplication sign
  U+00D7).
\<close>

definition latin1_lowercase :: string where
  "latin1_lowercase = [CHR 0xE0, CHR 0xE1, CHR 0xE2, CHR 0xE3, CHR 0xE4, CHR 0xE5, CHR 0xE6, CHR 0xE7, CHR 0xE8, CHR 0xE9, CHR 0xEA, CHR 0xEB,
                         CHR 0xEC, CHR 0xED, CHR 0xEE, CHR 0xEF, CHR 0xF0, CHR 0xF1, CHR 0xF2, CHR 0xF3, CHR 0xF4, CHR 0xF5, CHR 0xF6, CHR 0xF8,
                         CHR 0xF9, CHR 0xFA, CHR 0xFB, CHR 0xFC, CHR 0xFD, CHR 0xFE]"

definition latin1_uppercase :: string where
  "latin1_uppercase = [CHR 0xC0, CHR 0xC1, CHR 0xC2, CHR 0xC3, CHR 0xC4, CHR 0xC5, CHR 0xC6, CHR 0xC7, CHR 0xC8, CHR 0xC9, CHR 0xCA, CHR 0xCB,
                         CHR 0xCC, CHR 0xCD, CHR 0xCE, CHR 0xCF, CHR 0xD0, CHR 0xD1, CHR 0xD2, CHR 0xD3, CHR 0xD4, CHR 0xD5, CHR 0xD6, CHR 0xD8,
                         CHR 0xD9, CHR 0xDA, CHR 0xDB, CHR 0xDC, CHR 0xDD, CHR 0xDE]"

text \<open>
  The lower-case characters with no upper-case form below 256: the ordinal indicators
  U+00AA and U+00BA, the micro sign U+00B5, the sharp s U+00DF, and U+00FF.
\<close>

definition lowercase_unpaired :: string where
  "lowercase_unpaired = [CHR 0xAA, CHR 0xB5, CHR 0xBA, CHR 0xDF, CHR 0xFF]"

text \<open>The superscript digits and the fractions, numeric and so alphanumeric.\<close>

definition latin1_numeric :: string where
  "latin1_numeric = [CHR 0xB2, CHR 0xB3, CHR 0xB9, CHR 0xBC, CHR 0xBD, CHR 0xBE]"

text \<open>
  The characters for which \<open>str.isspace\<close> holds: tab, line feed, vertical tab, form
  feed, carriage return, the four separators 0x1C..0x1F, the space, the next-line
  control U+0085 and the no-break space U+00A0.
\<close>

definition whitespace :: string where
  "whitespace = [CHR 0x09, CHR 0x0A, CHR 0x0B, CHR 0x0C, CHR 0x0D,
                 CHR 0x1C, CHR 0x1D, CHR 0x1E, CHR 0x1F, CHR 0x20, CHR 0x85, CHR 0xA0]"

definition isspace :: "char \<Rightarrow> bool" where
  "isspace c = (c \<in> set whitespace)"

definition is_lower :: "char \<Rightarrow> bool" where
  "is_lower c = (c \<in> set (ascii_lowercase @ latin1_lowercase @ lowercase_unpaired))"

definition is_upper :: "char \<Rightarrow> bool" where
  "is_upper c = (c \<in> set (ascii_uppercase @ latin1_uppercase))"

definition is_cased :: "char \<Rightarrow> bool" where
  "is_cased c = (is_lower c \<or> is_upper c)"

definition to_upper :: "char \<Rightarrow> char" where
  "to_upper c = (case map_of (zip (ascii_lowercase @ latin1_lowercase)
                                   (ascii_uppercase @ latin1_uppercase)) c of
                   None \<Rightarrow> c | Some u \<Rightarrow> u)"

text \<open>\<open>s.upper()\<close>\<close>

definition upper :: "string \<Rightarrow> string" where
  "upper s = map to_upper s"

text \<open>\<open>s.lstrip()\<close>, \<open>s.rstrip()\<close>, \<open>s.strip()\<close>\<close>

definition lstrip :: "string \<Rightarrow> string" where
  "lstrip s = dropWhile isspace s"

definition rstrip :: "string \<Rightarrow> string" where
  "rstrip s = rev (dropWhile isspace (rev s))"

definition strip :: "string \<Rightarrow> string" where
  "strip s = rstrip (lstrip s)"

text \<open>\<open>s.startswith(p)\<close>, \<open>s.endswith(p)\<close>; with a tuple of prefixes, any of them.\<close>

definition startswith :: "string \<Rightarrow> string \<Rightarrow> bool" where
  "startswith s p = (take (length p) s = p)"

definition endswith :: "string \<Rightarrow> string \<Rightarrow> bool" where
  "endswith s p = (length p \<le> length s \<and> drop (length s - length p) s = p)"

definition startswith_any :: "string \<Rightarrow> string list \<Rightarrow> bool" where
  "startswith_any s ps = list_ex (startswith s) ps"

definition endswith_any :: "string \<Rightarrow> string list \<Rightarrow> bool" where
  "endswith_any s ps = list_ex (endswith s) ps"

text \<open>
  \<open>s.isupper()\<close>: there is at least one cased character and every cased character
  is upper case.
\<close>

definition isupper :: "string \<Rightarrow> bool" where
  "isupper s = (list_ex is_cased s \<and> list_all (\<lambda>c. \<not> is_lower c) s)"

text \<open>
  \<open>s.split()\<close>: the maximal runs of non-blank characters. The second argument is the
  word being read.
\<close>

fun split_acc :: "string \<Rightarrow> string \<Rightarrow> string list" where
  "split_acc [] w = (if w = [] then [] else [w])"
| "split_acc (c # cs) w =
     (if isspace c then (if w = [] then split_acc cs [] else w # split_acc cs [])
      else split_acc cs (w @ [c]))"

definition split_whitespace :: "string \<Rightarrow> string list" where
  "split_whitespace s = split_acc s []"

text \<open>\<open>s.split(sep)\<close> for a one-character separator: never empty, \<open>''.split(sep) = ['']\<close>.\<close>

fun split_sep_acc :: "char \<Rightarrow> string \<Rightarrow> string \<Rightarrow> string list" where
  "split_sep_acc d [] w = [w]"
| "split_sep_acc d (c # cs) w =
     (if c = d then w # split_sep_acc d cs [] else split_sep_acc d cs (w @ [c]))"

definition newline :: char where
  "newline = CHR 0x0A"

definition split_newline :: "string \<Rightarrow> string list" where
  "split_newline s = split_sep_acc newline s []"

text \<open>\<open>'\n'.join(xs)\<close>\<close>

fun join_newline :: "string list \<Rightarrow> string" where
  "join_newline [] = []"
| "join_newline [x] = x"
| "join_newline (x # y # ys) = x @ newline # join_newline (y # ys)"

text \<open>
  A value that is either a string or a Boolean: \<open>x and y\<close> returns \<open>x\<close> itself when
  \<open>x\<close> is falsy, so \<open>is_action\<close> and \<open>is_dialogue\<close> return the empty string on a
  blank line and a Boolean otherwise. \<open>truthy\<close> is the test an \<open>if\<close> makes.
\<close>

datatype pyval = PStr string | PBool bool

fun truthy :: "pyval \<Rightarrow> bool" where
  "truthy (PStr s) = (s \<noteq> [])"
| "truthy (PBool b) = b"

definition py_and :: "pyval \<Rightarrow> pyval \<Rightarrow> pyval" where
  "py_and x y = (if truthy x then y else x)"

section \<open>Line classification (scene\_validator.py)\<close>

text \<open>\<open>return line.strip().upper().startswith(('INT.', 'EXT.'))\<close>\<close>

definition is_scene_heading :: "string \<Rightarrow> bool" where
  "is_scene_heading line = startswith_any (upper (strip line)) [''INT.'', ''EXT.'']"

text \<open>\<open>return line.strip().upper().endswith(('TO:', 'OUT:', 'IN:'))\<close>\<close>

definition is_transition :: "string \<Rightarrow> bool" where
  "is_transition line = endswith_any (upper (strip line)) [''TO:'', ''OUT:'', ''IN:'']"

text \<open>\<open>return line.strip().startswith('(') and line.strip().endswith(')')\<close>\<close>

definition is_emotion :: "string \<Rightarrow> bool" where
  "is_emotion line = (startswith (strip line) ''('' \<and> endswith (strip line) '')'')"

text \<open>
  \<open>is_character_name\<close>: the trimmed line is upper case, at most 40 characters and one
  to four words long, and is no scene heading, transition or parenthetical.
\<close>

definition is_character_name :: "string \<Rightarrow> bool" where
  "is_character_name line0 =
     (let line = strip line0 in
        isupper line
        \<and> length line \<le> 40
        \<and> 1 \<le> length (split_whitespace line) \<and> length (split_whitespace line) \<le> 4
        \<and> \<not> is_scene_heading line
        \<and> \<not> is_transition line
        \<and> \<not> is_emotion line)"

text \<open>
  \<open>is_action\<close>: \<open>line and not ... and not line.endswith(("?", "!"))\<close> on the trimmed
  line.
\<close>

definition is_action :: "string \<Rightarrow> pyval" where
  "is_action line0 =
     (let line = strip line0 in
        py_and (PStr line)
          (PBool (\<not> is_scene_heading line
                  \<and> \<not> is_transition line
                  \<and> \<not> is_character_name line
                  \<and> \<not> is_emotion line
                  \<and> \<not> endswith_any line [''?'', ''!''])))"

text \<open>
  \<open>is_dialogue\<close>: as \<open>is_action\<close>, with the last test replaced by
  \<open>(line.endswith(('.', '?', '!')) or len(line.split()) > 3)\<close>.
\<close>

definition is_dialogue :: "string \<Rightarrow> pyval" where
  "is_dialogue line0 =
     (let line = strip line0 in
        py_and (PStr line)
          (PBool (\<not> is_scene_heading line
                  \<and> \<not> is_transition line
                  \<and> \<not> is_character_name line
                  \<and> \<not> is_emotion line
                  \<and> (endswith_any line [''.'', ''?'', ''!'']
                      \<or> length (split_whitespace line) > 3))))"

section \<open>Errors, indexing, counters\<close>

text \<open>
  The exceptions the analyses could raise are values: a list read out of range is
  \<open>IndexError\<close>, a division by zero is \<open>ZeroDivisionError\<close>, a missing dictionary key
  is \<open>KeyError\<close>.
\<close>

datatype py_error = IndexError | ZeroDivisionError | KeyError

definition err_bind :: "py_error + 'a \<Rightarrow> ('a \<Rightarrow> py_error + 'b) \<Rightarrow> py_error + 'b" where
  "err_bind m f = (case m of Inl e \<Rightarrow> Inl e | Inr x \<Rightarrow> f x)"

text \<open>\<open>xs[i]\<close>: a negative index counts from the end.\<close>

definition py_index :: "'a list \<Rightarrow> int \<Rightarrow> py_error + 'a" where
  "py_index xs i =
     (if 0 \<le> i \<and> i < int (length xs) then Inr (xs ! nat i)
      else if i < 0 \<and> - int (length xs) \<le> i then Inr (xs ! nat (int (length xs) + i))
      else Inl IndexError)"

text \<open>A \<open>for\<close> loop whose body may raise: the first error ends the loop.\<close>

fun for_each :: "('s \<Rightarrow> 'a \<Rightarrow> py_error + 's) \<Rightarrow> 'a list \<Rightarrow> 's \<Rightarrow> py_error + 's" where
  "for_each f [] s = Inr s"
| "for_each f (x # xs) s = (case f s x of Inl e \<Rightarrow> Inl e | Inr s' \<Rightarrow> for_each f xs s')"

text \<open>
  A \<open>defaultdict(int)\<close> keeps its keys in insertion order: an association list, and
  \<open>d[k] += n\<close> adds to the entry of \<open>k\<close> or appends a new one.
\<close>

fun add_count :: "string \<Rightarrow> nat \<Rightarrow> (string \<times> nat) list \<Rightarrow> (string \<times> nat) list" where
  "add_count k n [] = [(k, n)]"
| "add_count k n ((k', v) # kvs) =
     (if k = k' then (k', v + n) # kvs else (k', v) # add_count k n kvs)"

definition count_of :: "(string \<times> nat) list \<Rightarrow> string \<Rightarrow> nat" where
  "count_of d k = (case map_of d k of None \<Rightarrow> 0 | Some v \<Rightarrow> v)"

text \<open>\<open>str(n)\<close> for a natural number.\<close>

function str_nat :: "nat \<Rightarrow> string" where
  "str_nat n = (if n < 10 then [digits ! n] else str_nat (n div 10) @ [digits ! (n mod 10)])"
  by pat_completeness auto
termination
  by (relation "measure id") auto

declare str_nat.simps [simp del]

text \<open>
  The report glyphs lie outside the 8-bit characters; each is written as the bytes of its
  UTF-8 encoding: the check mark U+2714, the warning sign U+26A0 U+FE0F and the cross
  mark U+274C.
\<close>

definition check_mark :: string where
  "check_mark = [CHR 0xE2, CHR 0x9C, CHR 0x94]"

definition warning_sign :: string where
  "warning_sign = [CHR 0xE2, CHR 0x9A, CHR 0xA0, CHR 0xEF, CHR 0xB8, CHR 0x8F]"

definition cross_mark :: string where
  "cross_mark = [CHR 0xE2, CHR 0x9D, CHR 0x8C]"

definition UNKNOWN :: string where
  "UNKNOWN = ''UNKNOWN''"

text \<open>The truth value of \<open>current_character\<close>: \<open>None\<close> and the empty string are falsy.\<close>

fun truthy_opt :: "string option \<Rightarrow> bool" where
  "truthy_opt None = False"
| "truthy_opt (Some s) = (s \<noteq> [])"

section \<open>scene\_structure\_validator (scene\_validator.py)\<close>

record vstate =
  v_scene_count :: nat
  v_valid_headings :: "string list"
  v_header_issues :: "string list"
  v_scene_issues :: "string list"
  v_character_lines :: "(string \<times> nat) list"
  v_action_present :: bool

definition v_init :: vstate where
  "v_init = \<lparr>v_scene_count = 0, v_valid_headings = [], v_header_issues = [],
             v_scene_issues = [], v_character_lines = [], v_action_present = False\<rparr>"

definition transition_warning :: "nat \<Rightarrow> string" where
  "transition_warning i =
     warning_sign @ '' Line '' @ str_nat (i + 1) @ '': transition not followed by a scene heading''"

definition dialogue_error :: "nat \<Rightarrow> string" where
  "dialogue_error i =
     cross_mark @ '' Line '' @ str_nat (i + 1) @ '': dialogue not preceded by character name''"

text \<open>
  \<open>i + 1 >= len(lines) or not is_scene_heading(lines[i + 1])\<close>: the read happens
  only when the first test fails.
\<close>

definition transition_unfollowed :: "string list \<Rightarrow> nat \<Rightarrow> py_error + bool" where
  "transition_unfollowed lines i =
     (if int i + 1 \<ge> int (length lines) then Inr True
      else err_bind (py_index lines (int i + 1)) (\<lambda>nxt. Inr (\<not> is_scene_heading nxt)))"

text \<open>\<open>i >= 1 and is_character_name(lines[i - 1])\<close>\<close>

definition cue_before :: "string list \<Rightarrow> nat \<Rightarrow> py_error + bool" where
  "cue_before lines i =
     (if i \<ge> 1 then err_bind (py_index lines (int i - 1)) (\<lambda>p. Inr (is_character_name p))
      else Inr False)"

text \<open>\<open>i >= 2 and is_emotion(lines[i - 1]) and is_character_name(lines[i - 2])\<close>\<close>

definition cue_before_emotion :: "string list \<Rightarrow> nat \<Rightarrow> py_error + bool" where
  "cue_before_emotion lines i =
     (if i \<ge> 2 then
        err_bind (py_index lines (int i - 1)) (\<lambda>p.
          if is_emotion p then
            err_bind (py_index lines (int i - 2)) (\<lambda>q. Inr (is_character_name q))
          else Inr False)
      else Inr False)"

text \<open>The branch for a line that passed \<open>is_dialogue\<close> (lines 96 to 105).\<close>

definition attribute_dialogue :: "string list \<Rightarrow> vstate \<Rightarrow> nat \<Rightarrow> py_error + vstate" where
  "attribute_dialogue lines st i =
     err_bind (cue_before lines i) (\<lambda>direct.
       if direct then
         err_bind (py_index lines (int i - 1)) (\<lambda>p.
           Inr (st\<lparr>v_character_lines := add_count (upper (strip p)) 1 (v_character_lines st)\<rparr>))
       else
         err_bind (cue_before_emotion lines i) (\<lambda>through.
           if through then
             err_bind (py_index lines (int i - 2)) (\<lambda>q.
               Inr (st\<lparr>v_character_lines := add_count (upper (strip q)) 1 (v_character_lines st)\<rparr>))
           else
             Inr (st\<lparr>v_character_lines := add_count UNKNOWN 1 (v_character_lines st),
                      v_scene_issues := v_scene_issues st @ [dialogue_error i]\<rparr>)))"

text \<open>One pass of the loop body over \<open>(i, line)\<close> of \<open>enumerate(lines)\<close>.\<close>

definition validator_step :: "string list \<Rightarrow> vstate \<Rightarrow> nat \<times> string \<Rightarrow> py_error + vstate" where
  "validator_step lines st il =
     (let i = fst il; line = strip (snd il) in
      if line = [] then Inr st
      else if is_scene_heading line then
        Inr (st\<lparr>v_scene_count := v_scene_count st + 1,
                 v_valid_headings := v_valid_headings st @ [''    - '' @ line @ '' '' @ check_mark]\<rparr>)
      else if is_transition line then
        err_bind (transition_unfollowed lines i) (\<lambda>flag.
          Inr (if flag then st\<lparr>v_header_issues := v_header_issues st @ [transition_warning i]\<rparr>
               else st))
      else if truthy (is_action line) then Inr (st\<lparr>v_action_present := True\<rparr>)
      else if truthy (is_dialogue line) then attribute_dialogue lines st i
      else Inr st)"

definition validator_scan :: "string list \<Rightarrow> py_error + vstate" where
  "validator_scan lines = for_each (validator_step lines) (enumerate 0 lines) v_init"

definition validator_report :: "vstate \<Rightarrow> string list" where
  "validator_report st =
     [newline # ''Scene Structure Report:'', ''--------------------------------'']
     @ [''Total Scenes: '' @ str_nat (v_scene_count st) @ [newline]]
     @ (if v_valid_headings st \<noteq> [] then ''Valid Headings:'' # v_valid_headings st
        else [cross_mark @ '' No valid scene headings found.''])
     @ [newline # ''Header Reports:'']
     @ (if v_header_issues st \<noteq> [] then map (\<lambda>issue. ''    - '' @ issue) (v_header_issues st)
        else [''    - '' @ check_mark @ '' No header errors''])
     @ [newline # ''Scene Reports:'']
     @ (if v_scene_issues st \<noteq> [] then map (\<lambda>issue. ''    - '' @ issue) (v_scene_issues st)
        else [''    - '' @ check_mark @ '' No scene structure issues''])
     @ (if \<not> v_action_present st then [''    - '' @ warning_sign @ '' Script has no action lines'']
        else [])"

definition scene_structure_validator :: "string \<Rightarrow> py_error + string" where
  "scene_structure_validator script =
     (let lines = split_newline (strip script) in
      err_bind (validator_scan lines) (\<lambda>st. Inr (join_newline (validator_report st))))"

section \<open>character\_tracking (scene\_validator.py)\<close>

record tstate =
  ct_current_character :: "string option"
  ct_character_lines :: "(string \<times> nat) list"

definition ct_init :: tstate where
  "ct_init = \<lparr>ct_current_character = None, ct_character_lines = []\<rparr>"

text \<open>The loop body (lines 139 to 149); the loop index is not used.\<close>

definition ct_step :: "tstate \<Rightarrow> string \<Rightarrow> tstate" where
  "ct_step st line0 =
     (let line = strip line0 in
      if is_character_name line then st\<lparr>ct_current_character := Some line\<rparr>
      else if truthy (is_dialogue line) then
        (if truthy_opt (ct_current_character st) then
           st\<lparr>ct_character_lines :=
                add_count (the (ct_current_character st)) 1 (ct_character_lines st)\<rparr>
         else st\<lparr>ct_character_lines := add_count UNKNOWN 1 (ct_character_lines st)\<rparr>)
      else if line = [] then st\<lparr>ct_current_character := None\<rparr>
      else st)"

definition ct_scan :: "string list \<Rightarrow> tstate" where
  "ct_scan lines = foldl ct_step ct_init lines"

text \<open>\<open>f"{character:<12}"\<close>\<close>

definition ljust :: "nat \<Rightarrow> string \<Rightarrow> string" where
  "ljust w s = s @ replicate (w - length s) CHR '' ''"

text \<open>
  The distribution line of one character. \<open>count / total_lines\<close> is a true division,
  which raises on a zero divisor; the source guards it with \<open>if total_lines else 0\<close>.
  The quotient is a floating-point number: what the source prints from it,
  \<open>f"{bar} {round(percent)}%"\<close>, is the parameter \<open>percent_text\<close>, given \<open>count\<close> and
  \<open>total_lines\<close>. With the integer \<open>0\<close> for \<open>percent\<close> the bar is empty and the text
  is \<open>" 0%"\<close>.
\<close>

definition true_div :: "(nat \<Rightarrow> nat \<Rightarrow> 'f) \<Rightarrow> nat \<Rightarrow> nat \<Rightarrow> py_error + 'f" where
  "true_div fdiv a b = (if b = 0 then Inl ZeroDivisionError else Inr (fdiv a b))"

definition distribution_line ::
  "(nat \<Rightarrow> nat \<Rightarrow> string) \<Rightarrow> nat \<Rightarrow> string \<times> nat \<Rightarrow> py_error + string" where
  "distribution_line percent_text total_lines kv =
     err_bind (if total_lines \<noteq> 0 then true_div percent_text (snd kv) total_lines
               else Inr '' 0%'')
       (\<lambda>txt. Inr (ljust 12 (fst kv) @ '': '' @ txt))"

text \<open>A list comprehension whose element may raise.\<close>

fun map_err :: "('a \<Rightarrow> py_error + 'b) \<Rightarrow> 'a list \<Rightarrow> py_error + 'b list" where
  "map_err f [] = Inr []"
| "map_err f (x # xs) =
     (case f x of Inl e \<Rightarrow> Inl e
      | Inr y \<Rightarrow> (case map_err f xs of Inl e \<Rightarrow> Inl e | Inr ys \<Rightarrow> Inr (y # ys)))"

definition ct_report :: "(nat \<Rightarrow> nat \<Rightarrow> string) \<Rightarrow> tstate \<Rightarrow> py_error + string list" where
  "ct_report percent_text st =
     (let character_lines = ct_character_lines st;
          total_lines = sum_list (map snd character_lines) in
      err_bind (map_err (distribution_line percent_text total_lines) character_lines)
        (\<lambda>distribution. Inr (
           [newline # ''Characters Found:'']
           @ map (\<lambda>kv. ''    - '' @ fst kv @ '': '' @ str_nat (snd kv) @ '' lines'') character_lines
           @ [newline # ''Character Dialogue Distribution:'']
           @ distribution
           @ [newline # ''Character Report:'']
           @ (if UNKNOWN \<in> set (map fst character_lines)
              then [''    - '' @ warning_sign @ '' Some dialogue has no character assigned'']
              else [''    - '' @ check_mark @ '' No character assignment issues'']))))"

definition character_tracking :: "(nat \<Rightarrow> nat \<Rightarrow> string) \<Rightarrow> string \<Rightarrow> py_error + string" where
  "character_tracking percent_text script =
     (let lines = split_newline (strip script) in
      err_bind (ct_report percent_text (ct_scan lines)) (\<lambda>analysis. Inr (join_newline analysis)))"

section \<open>character\_speaking\_stats (speaking\_time.py)\<close>

text \<open>
  The scan of lines 11 to 22. The report that follows it prints floating-point durations
  and is not part of the model.
\<close>

record sstate =
  cs_current_character :: "string option"
  cs_character_word_count :: "(string \<times> nat) list"
  cs_character_line_count :: "(string \<times> nat) list"
  cs_total_lines :: nat

definition cs_init :: sstate where
  "cs_init = \<lparr>cs_current_character = None, cs_character_word_count = [],
              cs_character_line_count = [], cs_total_lines = 0\<rparr>"

definition cs_step :: "sstate \<Rightarrow> string \<Rightarrow> sstate" where
  "cs_step st line =
     (if is_character_name line then st\<lparr>cs_current_character := Some (upper (strip line))\<rparr>
      else if truthy (is_dialogue line) then
        (let st1 = st\<lparr>cs_total_lines := cs_total_lines st + 1\<rparr>;
             words = length (split_whitespace line);
             who = (if truthy_opt (cs_current_character st) then the (cs_current_character st)
                    else UNKNOWN)
         in st1\<lparr>cs_character_word_count := add_count who words (cs_character_word_count st1),
                cs_character_line_count := add_count who 1 (cs_character_line_count st1)\<rparr>)
      else st)"

definition character_speaking_stats_scan :: "string \<Rightarrow> sstate" where
  "character_speaking_stats_scan script = foldl cs_step cs_init (split_newline (strip script))"

section \<open>Scene segmentation (pacing\_and\_distribution.py, media\_readability.py)\<close>

text \<open>
  A scene is a dictionary: the scene in progress before the first heading has the
  heading \<open>None\<close> and no \<open>index\<close> key.
\<close>

record scene =
  sc_heading :: "string option"
  sc_content :: "string list"
  sc_index :: "nat option"

record seg_state =
  sg_scenes :: "scene list"
  sg_current_scene :: scene
  sg_scene_counter :: nat

definition sg_init :: seg_state where
  "sg_init = \<lparr>sg_scenes = [],
              sg_current_scene = \<lparr>sc_heading = None, sc_content = [], sc_index = None\<rparr>,
              sg_scene_counter = 0\<rparr>"

text \<open>\<open>if current_scene["heading"]: scenes.append(current_scene)\<close>\<close>

definition close_scene :: "seg_state \<Rightarrow> scene list" where
  "close_scene st =
     (if truthy_opt (sc_heading (sg_current_scene st)) then sg_scenes st @ [sg_current_scene st]
      else sg_scenes st)"

definition sg_step :: "seg_state \<Rightarrow> string \<Rightarrow> seg_state" where
  "sg_step st line =
     (if is_scene_heading line then
        \<lparr>sg_scenes = close_scene st,
         sg_current_scene = \<lparr>sc_heading = Some (strip line), sc_content = [],
                              sc_index = Some (sg_scene_counter st + 1)\<rparr>,
         sg_scene_counter = sg_scene_counter st + 1\<rparr>
      else
        st\<lparr>sg_current_scene :=
             (sg_current_scene st)\<lparr>sc_content := sc_content (sg_current_scene st) @ [line]\<rparr>\<rparr>)"

text \<open>
  The loop and the closing test after it: lines 27 to 37 of pacing\_and\_distribution.py,
  and the same text at lines 47 to 61 of media\_readability.py.
\<close>

definition split_scenes :: "string list \<Rightarrow> scene list" where
  "split_scenes lines = close_scene (foldl sg_step sg_init lines)"

definition pacing_scenes :: "string \<Rightarrow> scene list" where
  "pacing_scenes script = split_scenes (split_newline (strip script))"

definition readability_scenes :: "string \<Rightarrow> scene list" where
  "readability_scenes script = split_scenes (split_newline (strip script))"

section \<open>scene\_pacing\_and\_distribution: the scan of each scene\<close>

text \<open>
  \<open>character_lines\<close> and \<open>total_dialogue_lines\<close> live across the scenes; the two counts
  and \<open>current_character\<close> start afresh in every scene (lines 44 to 60). The report
  built from them prints floating-point percentages and is not part of the model.
\<close>

record pstate =
  sp_character_lines :: "(string \<times> nat) list"
  sp_total_dialogue_lines :: nat
  sp_dialogue_count :: nat
  sp_action_count :: nat
  sp_current_character :: "string option"

definition sp_init :: pstate where
  "sp_init = \<lparr>sp_character_lines = [], sp_total_dialogue_lines = 0, sp_dialogue_count = 0,
              sp_action_count = 0, sp_current_character = None\<rparr>"

definition sp_step :: "pstate \<Rightarrow> string \<Rightarrow> pstate" where
  "sp_step st line =
     (if is_character_name line then st\<lparr>sp_current_character := Some (upper (strip line))\<rparr>
      else if truthy (is_dialogue line) then
        st\<lparr>sp_dialogue_count := sp_dialogue_count st + 1,
           sp_total_dialogue_lines := sp_total_dialogue_lines st + 1,
           sp_character_lines :=
             add_count (if truthy_opt (sp_current_character st) then the (sp_current_character st)
                        else UNKNOWN) 1 (sp_character_lines st)\<rparr>
      else if truthy (is_action line) then st\<lparr>sp_action_count := sp_action_count st + 1\<rparr>
      else st)"

text \<open>One scene: reset the three per-scene variables, then scan its content.\<close>

definition sp_scene :: "pstate \<Rightarrow> scene \<Rightarrow> pstate" where
  "sp_scene st sc =
     foldl sp_step (st\<lparr>sp_dialogue_count := 0, sp_action_count := 0,
                       sp_current_character := None\<rparr>) (sc_content sc)"

definition pacing_scan :: "string \<Rightarrow> pstate" where
  "pacing_scan script = foldl sp_scene sp_init (pacing_scenes script)"

section \<open>character\_development\_validator (character\_development.py)\<close>

text \<open>
  The scan of lines 31 to 58. In the action branch the names come from
  \<open>re.findall(r'\b[A-Z][A-Z ]{1,39}\b', line)\<close>; that branch writes \<open>introduced\<close> only,
  and the search is the parameter \<open>possible_names\<close>.
\<close>

record dstate =
  cd_character_speakers :: "(string \<times> nat) list"
  cd_introduced :: "(string \<times> nat) list"
  cd_current_character :: "string option"
  cd_scenes :: nat
  cd_scene_map :: "(string \<times> nat list) list"

definition cd_init :: dstate where
  "cd_init = \<lparr>cd_character_speakers = [], cd_introduced = [], cd_current_character = None,
              cd_scenes = 0, cd_scene_map = []\<rparr>"

text \<open>\<open>if name not in introduced: introduced[name] = i + 1\<close>\<close>

definition introduce :: "string \<Rightarrow> nat \<Rightarrow> (string \<times> nat) list \<Rightarrow> (string \<times> nat) list" where
  "introduce name i intro = (if name \<in> set (map fst intro) then intro else intro @ [(name, i + 1)])"

text \<open>\<open>scene_map[k].add(n)\<close> on a \<open>defaultdict(set)\<close>\<close>

fun add_scene :: "string \<Rightarrow> nat \<Rightarrow> (string \<times> nat list) list \<Rightarrow> (string \<times> nat list) list" where
  "add_scene k n [] = [(k, [n])]"
| "add_scene k n ((k', ns) # kvs) =
     (if k = k' then (k', List.insert n ns) # kvs else (k', ns) # add_scene k n kvs)"

definition cd_step :: "(string \<Rightarrow> string list) \<Rightarrow> dstate \<Rightarrow> nat \<times> string \<Rightarrow> dstate" where
  "cd_step possible_names st il =
     (let i = fst il; line = strip (snd il) in
      if is_scene_heading line then st\<lparr>cd_scenes := cd_scenes st + 1\<rparr>
      else if is_character_name line then
        st\<lparr>cd_current_character := Some (strip line),
           cd_introduced := introduce (strip line) i (cd_introduced st)\<rparr>
      else if truthy (is_dialogue line) \<and> truthy_opt (cd_current_character st) then
        st\<lparr>cd_character_speakers :=
             add_count (the (cd_current_character st)) 1 (cd_character_speakers st),
           cd_scene_map := add_scene (the (cd_current_character st)) (cd_scenes st) (cd_scene_map st)\<rparr>
      else if truthy (is_action line) then
        st\<lparr>cd_introduced :=
             foldl (\<lambda>intro name. introduce (strip name) i intro) (cd_introduced st)
               (possible_names line)\<rparr>
      else if line = [] then st\<lparr>cd_current_character := None\<rparr>
      else st)"

definition cd_scan :: "(string \<Rightarrow> string list) \<Rightarrow> string list \<Rightarrow> dstate" where
  "cd_scan possible_names lines = foldl (cd_step possible_names) cd_init (enumerate 0 lines)"

definition character_development_scan :: "(string \<Rightarrow> string list) \<Rightarrow> string \<Rightarrow> dstate" where
  "character_development_scan possible_names script =
     cd_scan possible_names (split_newline (strip script))"

section \<open>Regular expressions (text\_to\_script.py)\<close>

text \<open>
  The three patterns are matched as Python's backtracking matcher does: a quantifier
  tries its alternatives in order of preference, the rest of the pattern is the
  continuation \<open>k\<close>, and the first alternative under which the continuation succeeds
  is the match. The continuation receives the text the quantifier consumed, which is
  what a group around it captures.
\<close>

text \<open>\<open>p*\<close> greedy: consume one more character if possible, else go on from here.\<close>

fun greedy_star ::
  "(char \<Rightarrow> bool) \<Rightarrow> (string \<Rightarrow> string \<Rightarrow> 'a option) \<Rightarrow> string \<Rightarrow> string \<Rightarrow> 'a option" where
  "greedy_star p k acc [] = k acc []"
| "greedy_star p k acc (c # cs) =
     (if p c then
        (case greedy_star p k (acc @ [c]) cs of Some r \<Rightarrow> Some r | None \<Rightarrow> k acc (c # cs))
      else k acc (c # cs))"

text \<open>\<open>p*?\<close> lazy: go on from here if possible, else consume one more character.\<close>

fun lazy_star ::
  "(char \<Rightarrow> bool) \<Rightarrow> (string \<Rightarrow> string \<Rightarrow> 'a option) \<Rightarrow> string \<Rightarrow> string \<Rightarrow> 'a option" where
  "lazy_star p k acc [] = k acc []"
| "lazy_star p k acc (c # cs) =
     (case k acc (c # cs) of Some r \<Rightarrow> Some r
      | None \<Rightarrow> (if p c then lazy_star p k (acc @ [c]) cs else None))"

text \<open>\<open>p+\<close> and \<open>p+?\<close>: one character, then the star.\<close>

definition greedy_plus ::
  "(char \<Rightarrow> bool) \<Rightarrow> (string \<Rightarrow> string \<Rightarrow> 'a option) \<Rightarrow> string \<Rightarrow> 'a option" where
  "greedy_plus p k s =
     (case s of [] \<Rightarrow> None | c # cs \<Rightarrow> if p c then greedy_star p k [c] cs else None)"

definition lazy_plus ::
  "(char \<Rightarrow> bool) \<Rightarrow> (string \<Rightarrow> string \<Rightarrow> 'a option) \<Rightarrow> string \<Rightarrow> 'a option" where
  "lazy_plus p k s =
     (case s of [] \<Rightarrow> None | c # cs \<Rightarrow> if p c then lazy_star p k [c] cs else None)"

text \<open>A literal under \<open>re.I\<close>: each character matches whatever its case.\<close>

fun lit_ci :: "string \<Rightarrow> (string \<Rightarrow> 'a option) \<Rightarrow> string \<Rightarrow> 'a option" where
  "lit_ci [] k s = k s"
| "lit_ci (p # ps) k [] = None"
| "lit_ci (p # ps) k (c # cs) = (if to_upper c = to_upper p then lit_ci ps k cs else None)"

text \<open>A single literal character, case-sensitive.\<close>

definition lit_char :: "char \<Rightarrow> (string \<Rightarrow> 'a option) \<Rightarrow> string \<Rightarrow> 'a option" where
  "lit_char p k s = (case s of [] \<Rightarrow> None | c # cs \<Rightarrow> if c = p then k cs else None)"

text \<open>\<open>a|b\<close>: the first alternative that leads to a match.\<close>

definition orelse :: "'a option \<Rightarrow> 'a option \<Rightarrow> 'a option" where
  "orelse a b = (case a of Some r \<Rightarrow> Some r | None \<Rightarrow> b)"

definition matched :: "string \<Rightarrow> unit option" where
  "matched s = Some ()"

text \<open>\<open>SCENE_RE = re.compile(r'^\s*(INT\.|EXT\.)', re.I)\<close>\<close>

definition SCENE_RE :: "string \<Rightarrow> bool" where
  "SCENE_RE s =
     (greedy_star isspace
        (\<lambda>_ r. orelse (lit_ci ''INT.'' matched r) (lit_ci ''EXT.'' matched r)) [] s \<noteq> None)"

text \<open>\<open>TRANSITION_RE = re.compile(r'^\s*(CUT TO:|FADE (IN|OUT):|DISSOLVE TO:)', re.I)\<close>\<close>

definition TRANSITION_RE :: "string \<Rightarrow> bool" where
  "TRANSITION_RE s =
     (greedy_star isspace
        (\<lambda>_ r. orelse (lit_ci ''CUT TO:'' matched r)
                 (orelse (lit_ci ''FADE ''
                            (\<lambda>r1. orelse (lit_ci ''IN'' (lit_ci '':'' matched) r1)
                                          (lit_ci ''OUT'' (lit_ci '':'' matched) r1)) r)
                         (lit_ci ''DISSOLVE TO:'' matched r))) [] s \<noteq> None)"

text \<open>
  \<open>\w\<close>: the alphanumeric characters and the underscore; and the class \<open>[\w\-\s]\<close> of
  the name group.
\<close>

definition is_word :: "char \<Rightarrow> bool" where
  "is_word c = (c \<in> set (ascii_lowercase @ ascii_uppercase @ digits @ ''_''
                           @ latin1_lowercase @ latin1_uppercase @ lowercase_unpaired
                           @ latin1_numeric))"

definition is_name_char :: "char \<Rightarrow> bool" where
  "is_name_char c = (is_word c \<or> c = CHR ''-'' \<or> isspace c)"

text \<open>\<open>$\<close>: the end of the text, or just before a newline that ends it.\<close>

definition at_end :: "string \<Rightarrow> bool" where
  "at_end s = (s = [] \<or> s = [newline])"

text \<open>\<open>\s*:\s*(.+)$\<close>, the part after the name and the optional parenthetical.\<close>

definition re_tail ::
  "string \<Rightarrow> string option \<Rightarrow> string \<Rightarrow> (string \<times> string option \<times> string) option" where
  "re_tail name paren s =
     greedy_star isspace
       (\<lambda>_. lit_char CHR '':''
          (greedy_star isspace
             (\<lambda>_. greedy_plus (\<lambda>c. c \<noteq> newline)
                     (\<lambda>dialogue r. if at_end r then Some (name, paren, dialogue) else None)) []))
       [] s"

text \<open>\<open>(?:\s*\(([^)]+)\))?\<close> followed by the tail: with the parenthetical first, then without.\<close>

definition re_paren_tail :: "string \<Rightarrow> string \<Rightarrow> (string \<times> string option \<times> string) option" where
  "re_paren_tail name s =
     orelse
       (greedy_star isspace
          (\<lambda>_. lit_char CHR ''(''
             (greedy_plus (\<lambda>c. c \<noteq> CHR '')'')
                (\<lambda>paren. lit_char CHR '')'' (re_tail name (Some paren))))) [] s)
       (re_tail name None s)"

text \<open>
  \<open>DIALOGUE_RE = re.compile(r'^\s*([\w\-\s]+?)(?:\s*\(([^)]+)\))?\s*:\s*(.+)$')\<close>;
  the result is \<open>m.groups()\<close>, with \<open>None\<close> for a group that took no part.
\<close>

definition DIALOGUE_RE :: "string \<Rightarrow> (string \<times> string option \<times> string) option" where
  "DIALOGUE_RE s = greedy_star isspace (\<lambda>_. lazy_plus is_name_char re_paren_tail) [] s"

section \<open>format\_script (text\_to\_script.py)\<close>

text \<open>
  \<open>s.center(width)\<close>: the left margin is \<open>marg // 2 + (marg & width & 1)\<close>, the rest
  goes to the right.
\<close>

definition center :: "nat \<Rightarrow> string \<Rightarrow> string" where
  "center width s =
     (if width \<le> length s then s
      else (let marg = width - length s;
                left = marg div 2 + (if odd marg \<and> odd width then 1 else 0)
            in replicate left CHR '' '' @ s @ replicate (marg - left) CHR '' ''))"

text \<open>\<open>f"{s:>60}"\<close>\<close>

definition rjust :: "nat \<Rightarrow> string \<Rightarrow> string" where
  "rjust w s = replicate (w - length s) CHR '' '' @ s"

text \<open>
  \<open>text.splitlines()\<close>: the line boundaries are line feed, carriage return (with a
  line feed after it as one boundary), vertical tab, form feed, the separators
  0x1C, 0x1D, 0x1E and the next-line control U+0085; a boundary at the very end opens no
  further line.
\<close>

definition carriage_return :: char where
  "carriage_return = CHR 0x0D"

definition line_boundaries :: string where
  "line_boundaries = [CHR 0x0A, CHR 0x0B, CHR 0x0C, CHR 0x1C, CHR 0x1D, CHR 0x1E, CHR 0x85]"

fun splitlines_acc :: "string \<Rightarrow> string \<Rightarrow> string list" where
  "splitlines_acc [] w = (if w = [] then [] else [w])"
| "splitlines_acc (c # cs) w =
     (if c = carriage_return then
        (case cs of
           [] \<Rightarrow> [w]
         | c' # cs' \<Rightarrow> if c' = newline then w # splitlines_acc cs' []
                       else w # splitlines_acc cs [])
      else if c \<in> set line_boundaries then w # splitlines_acc cs []
      else splitlines_acc cs (w @ [c]))"

definition splitlines :: "string \<Rightarrow> string list" where
  "splitlines s = splitlines_acc s []"

text \<open>Rule 3 of the loop body: the lines emitted for a match of \<open>DIALOGUE_RE\<close>.\<close>

definition render_inline :: "string \<times> string option \<times> string \<Rightarrow> string list" where
  "render_inline m =
     (case m of (char_name, paren, dialogue) \<Rightarrow>
        [center 40 (strip (upper char_name))]
        @ (if truthy_opt paren then [replicate 10 CHR '' '' @ ''('' @ strip (the paren) @ '')''] else [])
        @ [replicate 5 CHR '' '' @ strip dialogue])"



section \<open>The module state across invocations\<close>

text \<open>
  What outlives a call is the module namespace. scene\_validator.py binds no module-level
  variable. text\_to\_script.py binds the three compiled patterns (lines 28 to 31), and
  format\_script looks them up by name each time it runs. An invocation therefore takes
  the module state and returns its result together with the module state it leaves
  behind. Every other variable of the two functions is a local that the call creates:
  the counters, lists and dictionary of \<open>v_init\<close>, and the list \<open>formatted\<close>.
\<close>

record module_state =
  g_SCENE_RE :: "string \<Rightarrow> bool"
  g_TRANSITION_RE :: "string \<Rightarrow> bool"
  g_DIALOGUE_RE :: "string \<Rightarrow> (string \<times> string option \<times> string) option"

text \<open>The module state after import.\<close>

definition module_init :: module_state where
  "module_init = \<lparr>g_SCENE_RE = SCENE_RE, g_TRANSITION_RE = TRANSITION_RE,
                   g_DIALOGUE_RE = DIALOGUE_RE\<rparr>"

text \<open>
  One pass of the loop of format\_script on the local list \<open>formatted\<close>, the patterns
  read from the module state \<open>g\<close>.
\<close>

definition format_step :: "module_state \<Rightarrow> string list \<Rightarrow> string \<Rightarrow> string list" where
  "format_step g formatted raw =
     (let line = strip raw in
      if line = [] then formatted @ [[]]
      else if g_SCENE_RE g line then formatted @ [strip (upper line)]
      else if g_TRANSITION_RE g line then formatted @ [rjust 60 (upper line)]
      else (case g_DIALOGUE_RE g line of
              Some m \<Rightarrow> formatted @ render_inline m
            | None \<Rightarrow>
                if is_character_name line then formatted @ [center 40 (strip (upper line))]
                else if is_emotion line then formatted @ [replicate 10 CHR '' '' @ strip line]
                else if truthy (is_dialogue line)
                  then formatted @ [replicate 5 CHR '' '' @ strip line]
                else formatted @ [line]))"

text \<open>
  A call of format\_script: \<open>formatted\<close> starts empty, the loop runs over the lines, the
  result is the joined list; no module-level name is assigned.
\<close>

definition format_script_call :: "module_state \<Rightarrow> string \<Rightarrow> string \<times> module_state" where
  "format_script_call g text =
     (join_newline (foldl (format_step g) [] (splitlines text)), g)"


section \<open>Predicates of the statements\<close>

text \<open>
  What it means for \<open>scenes\<close> to be the segmentation of \<open>lines\<close>, the scene counter
  standing at \<open>n\<close> before: one scene per heading line, numbered from \<open>n + 1\<close> in
  order, each with the trimmed heading; the lines from the first heading on are the
  heading lines, each followed by the content of its scene; no content line is a heading.
\<close>

definition scene_partition :: "nat \<Rightarrow> string list \<Rightarrow> scene list \<Rightarrow> bool" where
  "scene_partition n lines scenes =
     (let headings = filter is_scene_heading lines in
        length scenes = length headings
        \<and> (\<forall>i < length scenes. sc_index (scenes ! i) = Some (n + 1 + i))
        \<and> map sc_heading scenes = map (\<lambda>l. Some (strip l)) headings
        \<and> concat (map2 (\<lambda>l sc. l # sc_content sc) headings scenes)
            = dropWhile (\<lambda>l. \<not> is_scene_heading l) lines
        \<and> (\<forall>sc \<in> set scenes. \<forall>l \<in> set (sc_content sc). \<not> is_scene_heading l))"

text \<open>
  The two conditions under which the loop body of scene\_structure\_validator reports
  line \<open>i\<close>: the line reaches the transition check (it is a transition and no scene
  heading) and there is no next line or the next line is no scene heading; the line
  reaches the dialogue branch (it is dialogue, and no scene heading, transition or
  action) and neither look-back finds a character cue.
\<close>

definition unfollowed_transition :: "string list \<Rightarrow> nat \<Rightarrow> bool" where
  "unfollowed_transition lines i =
     (\<not> is_scene_heading (lines ! i) \<and> is_transition (lines ! i)
      \<and> (length lines \<le> i + 1 \<or> \<not> is_scene_heading (lines ! (i + 1))))"

definition unattributed_dialogue :: "string list \<Rightarrow> nat \<Rightarrow> bool" where
  "unattributed_dialogue lines i =
     (\<not> is_scene_heading (lines ! i) \<and> \<not> is_transition (lines ! i)
      \<and> \<not> truthy (is_action (lines ! i)) \<and> truthy (is_dialogue (lines ! i))
      \<and> \<not> (1 \<le> i \<and> is_character_name (lines ! (i - 1)))
      \<and> \<not> (2 \<le> i \<and> is_emotion (lines ! (i - 1)) \<and> is_character_name (lines ! (i - 2))))"



section \<open>Facts about the string functions\<close>

lemma to_upper_fixes_uncased: "\<not> is_lower c \<Longrightarrow> to_upper c = c"
  by (simp add: to_upper_def is_lower_def ascii_lowercase_def ascii_uppercase_def latin1_lowercase_def
      latin1_uppercase_def lowercase_unpaired_def)

lemma to_upper_colon: "to_upper c = CHR '':'' \<longleftrightarrow> c = CHR '':''"
  by (simp add: to_upper_def ascii_lowercase_def ascii_uppercase_def latin1_lowercase_def
      latin1_uppercase_def lowercase_unpaired_def)

lemma to_upper_open_paren: "to_upper (CHR ''('') = CHR ''(''"
  by (simp add: to_upper_def ascii_lowercase_def ascii_uppercase_def latin1_lowercase_def
      latin1_uppercase_def lowercase_unpaired_def)



lemma upper_Nil_iff: "upper s = [] \<longleftrightarrow> s = []"
  by (simp add: upper_def)

lemma rstrip_Cons_nonspace: "\<not> isspace c \<Longrightarrow> rstrip (c # s) = c # rstrip s"
  by (simp add: rstrip_def dropWhile_append)

lemma rstrip_idem: "rstrip (rstrip s) = rstrip s"
  by (simp add: rstrip_def)

lemma lstrip_strip: "lstrip (strip s) = strip s"
proof (cases "lstrip s")
  case Nil
  then have "strip s = []" by (simp add: strip_def rstrip_def)
  then show ?thesis by (simp add: lstrip_def)
next
  case (Cons c t)
  then have "\<not> isspace c"
    unfolding lstrip_def by (metis hd_dropWhile list.sel(1) list.distinct(1))
  with Cons show ?thesis
    by (simp add: strip_def rstrip_Cons_nonspace) (simp add: lstrip_def)
qed

lemma strip_idem: "strip (strip s) = strip s"
proof -
  have "strip (strip s) = rstrip (strip s)"
    by (simp add: lstrip_strip strip_def [of "strip s"])
  then show ?thesis by (simp add: strip_def rstrip_idem)
qed

lemma strip_Nil: "strip [] = []"
  by (simp add: strip_def lstrip_def rstrip_def)

lemma endswith_last:
  assumes "endswith s p" and "p \<noteq> []"
  shows "s \<noteq> [] \<and> last s = last p"
proof -
  from assms have "s = take (length s - length p) s @ p"
    by (metis append_take_drop_id endswith_def)
  with assms(2) show ?thesis
    by (metis append_is_Nil_conv last_appendR)
qed

lemma startswith_hd:
  assumes "startswith s p" and "p \<noteq> []"
  shows "s \<noteq> [] \<and> hd s = hd p"
proof -
  from assms have "take (length p) s = p" by (simp add: startswith_def)
  with assms(2) show ?thesis
    by (metis hd_take length_greater_0_conv take_eq_Nil)
qed

lemma is_scene_heading_strip: "is_scene_heading (strip line) = is_scene_heading line"
  by (simp add: is_scene_heading_def strip_idem)

lemma is_transition_strip: "is_transition (strip line) = is_transition line"
  by (simp add: is_transition_def strip_idem)

lemma is_emotion_strip: "is_emotion (strip line) = is_emotion line"
  by (simp add: is_emotion_def strip_idem)

lemma is_character_name_strip: "is_character_name (strip line) = is_character_name line"
  by (simp add: is_character_name_def strip_idem)

lemma is_scene_heading_hd:
  "is_scene_heading line \<Longrightarrow>
     strip line \<noteq> [] \<and> (to_upper (hd (strip line)) = CHR ''I'' \<or> to_upper (hd (strip line)) = CHR ''E'')"
proof -
  assume "is_scene_heading line"
  then consider "startswith (upper (strip line)) ''INT.''" | "startswith (upper (strip line)) ''EXT.''"
    by (auto simp: is_scene_heading_def startswith_any_def)
  then show ?thesis
  proof cases
    case 1
    from startswith_hd [OF 1] show ?thesis
      by (auto simp: upper_def hd_map)
  next
    case 2
    from startswith_hd [OF 2] show ?thesis
      by (auto simp: upper_def hd_map)
  qed
qed

lemma is_transition_last:
  "is_transition line \<Longrightarrow> strip line \<noteq> [] \<and> last (strip line) = CHR '':''"
proof -
  assume "is_transition line"
  then obtain p where p: "endswith (upper (strip line)) p" "p \<noteq> []" "last p = CHR '':''"
    by (auto simp: is_transition_def endswith_any_def)
  from endswith_last [OF p(1,2)] p(3)
  have "upper (strip line) \<noteq> []" "last (upper (strip line)) = CHR '':''" by simp_all
  then show ?thesis
    by (auto simp: upper_def last_map to_upper_colon)
qed

lemma is_emotion_ends:
  "is_emotion line \<Longrightarrow>
     strip line \<noteq> [] \<and> hd (strip line) = CHR ''('' \<and> last (strip line) = CHR '')''"
proof -
  assume e: "is_emotion line"
  then have "startswith (strip line) ''(''" "endswith (strip line) '')''"
    by (simp_all add: is_emotion_def)
  from startswith_hd [OF this(1)] endswith_last [OF this(2)] show ?thesis by simp
qed

section \<open>The four exclusive categories\<close>

text \<open>
  C1, as the code has it. A character cue excludes a scene heading, a transition and a
  parenthetical, because \<open>is_character_name\<close> tests for them; a parenthetical excludes
  a scene heading and a transition, because it starts with \<open>(\<close> and ends with \<open>)\<close>.
  Nothing keeps a scene heading from being a transition as well.
\<close>

theorem classification_exclusive_pairs:
  "\<not> (is_character_name line \<and> is_scene_heading line)
   \<and> \<not> (is_character_name line \<and> is_transition line)
   \<and> \<not> (is_character_name line \<and> is_emotion line)
   \<and> \<not> (is_emotion line \<and> is_scene_heading line)
   \<and> \<not> (is_emotion line \<and> is_transition line)"
proof -
  have a: "\<not> (is_character_name line \<and> is_scene_heading line)"
    using is_scene_heading_strip [of line] by (auto simp: is_character_name_def Let_def)
  have b: "\<not> (is_character_name line \<and> is_transition line)"
    using is_transition_strip [of line] by (auto simp: is_character_name_def Let_def)
  have c: "\<not> (is_character_name line \<and> is_emotion line)"
    using is_emotion_strip [of line] by (auto simp: is_character_name_def Let_def)
  have d: "\<not> (is_emotion line \<and> is_scene_heading line)"
  proof
    assume h: "is_emotion line \<and> is_scene_heading line"
    from is_emotion_ends [of line] is_scene_heading_hd [of line] h
    show False by (auto simp: to_upper_open_paren)
  qed
  have e: "\<not> (is_emotion line \<and> is_transition line)"
  proof
    assume h: "is_emotion line \<and> is_transition line"
    from is_emotion_ends [of line] is_transition_last [of line] h
    show False by auto
  qed
  from a b c d e show ?thesis by blast
qed

theorem classification_exclusive_pairs_witness:
  "is_emotion ''(angrily)''
   \<and> \<not> is_scene_heading ''(angrily)''
   \<and> \<not> is_transition ''(angrily)''
   \<and> \<not> is_character_name ''(angrily)''"
proof -
  have "is_emotion ''(angrily)''" by code_simp
  with classification_exclusive_pairs [of "''(angrily)''"] show ?thesis by blast
qed

text \<open>
  C1 as stated fails: a line that starts with \<open>INT.\<close> and ends with \<open>TO:\<close> is a scene
  heading and a transition at once.
\<close>

theorem scene_heading_and_transition_overlap:
  "is_scene_heading ''INT. LAB - CUT TO:'' \<and> is_transition ''INT. LAB - CUT TO:''"
  by code_simp

section \<open>Action and dialogue overlap\<close>

lemma endswith_dot_not_mark:
  assumes "endswith l ''.''"
  shows "\<not> endswith_any l [''?'', ''!'']"
proof
  assume "endswith_any l [''?'', ''!'']"
  then consider "endswith l ''?''" | "endswith l ''!''"
    by (auto simp: endswith_any_def)
  then show False
  proof cases
    case 1
    from endswith_last [OF assms] endswith_last [OF 1] show False by simp
  next
    case 2
    from endswith_last [OF assms] endswith_last [OF 2] show False by simp
  qed
qed

text \<open>
  C5. A non-blank line whose trimmed text ends in a full stop, has more than three words
  and is none of scene heading, transition, parenthetical and character cue: \<open>is_action\<close>
  and \<open>is_dialogue\<close> both return \<open>True\<close>.
\<close>

theorem action_and_dialogue_both_true:
  assumes "strip line \<noteq> []"
    and "endswith (strip line) ''.''"
    and "length (split_whitespace (strip line)) > 3"
    and "\<not> is_scene_heading line"
    and "\<not> is_transition line"
    and "\<not> is_emotion line"
    and "\<not> is_character_name line"
  shows "is_action line = PBool True \<and> is_dialogue line = PBool True"
proof -
  let ?l = "strip line"
  have four: "\<not> is_scene_heading ?l" "\<not> is_transition ?l" "\<not> is_emotion ?l"
    "\<not> is_character_name ?l"
    using assms(4-7)
    by (simp_all add: is_scene_heading_strip is_transition_strip is_emotion_strip
        is_character_name_strip)
  have dot: "endswith_any ?l [''.'', ''?'', ''!'']"
    using assms(2) by (simp add: endswith_any_def)
  have a: "is_action line = PBool True"
    using assms(1) four endswith_dot_not_mark [OF assms(2)]
    by (simp add: is_action_def Let_def py_and_def)
  have d: "is_dialogue line = PBool True"
    using assms(1) four dot
    by (simp add: is_dialogue_def Let_def py_and_def)
  from a d show ?thesis by simp
qed

theorem action_and_dialogue_both_true_witness:
  "is_action ''He picks up the glass and stares at it.'' = PBool True
   \<and> is_dialogue ''He picks up the glass and stares at it.'' = PBool True"
proof -
  let ?line = "''He picks up the glass and stares at it.''"
  have h1: "strip ?line \<noteq> []" by code_simp
  have h2: "endswith (strip ?line) ''.''" by code_simp
  have h3: "length (split_whitespace (strip ?line)) > 3" by code_simp
  have h4: "\<not> is_scene_heading ?line" by code_simp
  have h5: "\<not> is_transition ?line" by code_simp
  have h6: "\<not> is_emotion ?line" by code_simp
  have h7: "\<not> is_character_name ?line" by code_simp
  from action_and_dialogue_both_true [OF h1 h2 h3 h4 h5 h6 h7] show ?thesis .
qed

section \<open>Scene segmentation is a partition\<close>

lemma scene_heading_nonblank: "is_scene_heading x \<Longrightarrow> strip x \<noteq> []"
  using is_scene_heading_hd by blast

lemma scene_partition_Nil: "scene_partition n [] []"
  by (simp add: scene_partition_def)

lemma scene_partition_skip:
  "\<not> is_scene_heading x \<Longrightarrow> scene_partition n xs T \<Longrightarrow> scene_partition n (x # xs) T"
  by (simp add: scene_partition_def Let_def)

lemma scene_partition_open:
  assumes "is_scene_heading x" and "scene_partition (Suc n) xs T"
  shows "scene_partition n (x # xs)
           (\<lparr>sc_heading = Some (strip x),
             sc_content = takeWhile (\<lambda>l. \<not> is_scene_heading l) xs,
             sc_index = Some (n + 1)\<rparr> # T)"
proof -
  let ?H = "filter is_scene_heading xs"
  let ?new = "\<lparr>sc_heading = Some (strip x),
               sc_content = takeWhile (\<lambda>l. \<not> is_scene_heading l) xs,
               sc_index = Some (n + 1)\<rparr>"
  from assms(2) have len: "length T = length ?H"
    and idx: "\<forall>i < length T. sc_index (T ! i) = Some (Suc n + 1 + i)"
    and hd: "map sc_heading T = map (\<lambda>l. Some (strip l)) ?H"
    and cat: "concat (map2 (\<lambda>l sc. l # sc_content sc) ?H T)
                = dropWhile (\<lambda>l. \<not> is_scene_heading l) xs"
    and cont: "\<forall>sc \<in> set T. \<forall>l \<in> set (sc_content sc). \<not> is_scene_heading l"
    unfolding scene_partition_def Let_def by blast+
  have H: "filter is_scene_heading (x # xs) = x # ?H"
    using assms(1) by simp
  have len': "length (?new # T) = length (x # ?H)"
    using len by simp
  have idx': "\<forall>i < length (?new # T). sc_index ((?new # T) ! i) = Some (n + 1 + i)"
  proof (intro allI impI)
    fix i assume "i < length (?new # T)"
    then show "sc_index ((?new # T) ! i) = Some (n + 1 + i)"
      using idx by (cases i) simp_all
  qed
  have hd': "map sc_heading (?new # T) = map (\<lambda>l. Some (strip l)) (x # ?H)"
    using hd by simp
  have cat': "concat (map2 (\<lambda>l sc. l # sc_content sc) (x # ?H) (?new # T))
                = dropWhile (\<lambda>l. \<not> is_scene_heading l) (x # xs)"
    using assms(1) cat by simp
  have cont': "\<forall>sc \<in> set (?new # T). \<forall>l \<in> set (sc_content sc). \<not> is_scene_heading l"
    using cont by (auto dest: set_takeWhileD)
  show ?thesis
    unfolding scene_partition_def Let_def H
    by (intro conjI) (rule len' idx' hd' cat' cont')+
qed


lemma close_scene_fold:
  "\<exists>T. close_scene (foldl sg_step st ls) =
         (if truthy_opt (sc_heading (sg_current_scene st))
          then sg_scenes st @ [(sg_current_scene st)\<lparr>sc_content :=
                 sc_content (sg_current_scene st) @ takeWhile (\<lambda>l. \<not> is_scene_heading l) ls\<rparr>]
          else sg_scenes st) @ T
       \<and> scene_partition (sg_scene_counter st) ls T"
proof (induction ls arbitrary: st)
  case Nil
  show ?case
    by (rule exI [of _ "[]"]) (simp add: close_scene_def scene_partition_Nil)
next
  case (Cons x xs)
  let ?st = "sg_step st x"
  from Cons.IH [of ?st] obtain T where
    T: "close_scene (foldl sg_step ?st xs) =
          (if truthy_opt (sc_heading (sg_current_scene ?st))
           then sg_scenes ?st @ [(sg_current_scene ?st)\<lparr>sc_content :=
                  sc_content (sg_current_scene ?st) @ takeWhile (\<lambda>l. \<not> is_scene_heading l) xs\<rparr>]
           else sg_scenes ?st) @ T"
    and P: "scene_partition (sg_scene_counter ?st) xs T"
    by blast
  show ?case
  proof (cases "is_scene_heading x")
    case True
    let ?new = "\<lparr>sc_heading = Some (strip x),
                 sc_content = takeWhile (\<lambda>l. \<not> is_scene_heading l) xs,
                 sc_index = Some (sg_scene_counter st + 1)\<rparr>"
    have cnt: "sg_scene_counter ?st = Suc (sg_scene_counter st)"
      using True by (simp add: sg_step_def)
    have "close_scene (foldl sg_step st (x # xs)) = close_scene st @ ?new # T"
      using True T scene_heading_nonblank [OF True] by (simp add: sg_step_def)
    moreover have "close_scene st =
         (if truthy_opt (sc_heading (sg_current_scene st))
          then sg_scenes st @ [(sg_current_scene st)\<lparr>sc_content :=
                 sc_content (sg_current_scene st) @ takeWhile (\<lambda>l. \<not> is_scene_heading l) (x # xs)\<rparr>]
          else sg_scenes st)"
      using True by (simp add: close_scene_def)
    moreover have "scene_partition (sg_scene_counter st) (x # xs) (?new # T)"
      using scene_partition_open [OF True] P cnt by simp
    ultimately show ?thesis by (intro exI [of _ "?new # T"]) simp
  next
    case False
    have "scene_partition (sg_scene_counter st) (x # xs) T"
      using scene_partition_skip [OF False] P False by (simp add: sg_step_def)
    moreover have "close_scene (foldl sg_step st (x # xs)) =
         (if truthy_opt (sc_heading (sg_current_scene st))
          then sg_scenes st @ [(sg_current_scene st)\<lparr>sc_content :=
                 sc_content (sg_current_scene st) @ takeWhile (\<lambda>l. \<not> is_scene_heading l) (x # xs)\<rparr>]
          else sg_scenes st) @ T"
      using False T by (simp add: sg_step_def)
    ultimately show ?thesis by blast
  qed
qed

lemma split_scenes_partition: "scene_partition 0 lines (split_scenes lines)"
proof -
  from close_scene_fold [of sg_init lines] obtain T where
    "close_scene (foldl sg_step sg_init lines) = T" and "scene_partition 0 lines T"
    by (auto simp: sg_init_def)
  then show ?thesis by (simp add: split_scenes_def)
qed

text \<open>
  C4. For every list of lines, the segmentation loop of scene\_pacing\_and\_distribution
  and of readability\_analysis yields one scene per scene-heading line, numbered 1, 2, ...
  in order and carrying the trimmed heading; from the first heading line on, the input is
  the heading lines each followed by the content of its scene, so that contents do not
  overlap, keep the source order and leave out the lines before the first heading; with no
  heading line there is no scene.
\<close>

theorem scene_segmentation:
  "pacing_scenes script = split_scenes (split_newline (strip script))
   \<and> readability_scenes script = split_scenes (split_newline (strip script))
   \<and> (let headings = filter is_scene_heading lines; scenes = split_scenes lines in
        length scenes = length headings
        \<and> (\<forall>i < length scenes. sc_index (scenes ! i) = Some (i + 1))
        \<and> map sc_heading scenes = map (\<lambda>l. Some (strip l)) headings
        \<and> concat (map2 (\<lambda>l sc. l # sc_content sc) headings scenes)
            = dropWhile (\<lambda>l. \<not> is_scene_heading l) lines
        \<and> (\<forall>sc \<in> set scenes. \<forall>l \<in> set (sc_content sc). \<not> is_scene_heading l)
        \<and> (headings = [] \<longrightarrow> scenes = []))"
proof -
  let ?H = "filter is_scene_heading lines"
  let ?T = "split_scenes lines"
  from split_scenes_partition [of lines] have len: "length ?T = length ?H"
    and idx: "\<forall>i < length ?T. sc_index (?T ! i) = Some (0 + 1 + i)"
    and hd: "map sc_heading ?T = map (\<lambda>l. Some (strip l)) ?H"
    and cat: "concat (map2 (\<lambda>l sc. l # sc_content sc) ?H ?T)
                = dropWhile (\<lambda>l. \<not> is_scene_heading l) lines"
    and cont: "\<forall>sc \<in> set ?T. \<forall>l \<in> set (sc_content sc). \<not> is_scene_heading l"
    unfolding scene_partition_def Let_def by blast+
  from idx have idx': "\<forall>i < length ?T. sc_index (?T ! i) = Some (i + 1)"
    by simp
  have none: "?H = [] \<longrightarrow> ?T = []"
  proof
    assume "?H = []"
    then have "length ?H = 0" by (simp only: list.size)
    with len show "?T = []" by (simp only: length_0_conv)
  qed
  have segs: "pacing_scenes script = split_scenes (split_newline (strip script))"
    "readability_scenes script = split_scenes (split_newline (strip script))"
    by (simp_all add: pacing_scenes_def readability_scenes_def)
  show ?thesis
    unfolding Let_def
    by (intro conjI) (rule segs len idx' hd cat cont none)+
qed

theorem scene_segmentation_witness:
  "length (split_scenes [''FADE IN:'', ''INT. ROOM - DAY'', ''SARAH'', ''Hello there.'',
                         ''EXT. PARK - DAY'', ''She runs.'']) = 2
   \<and> sc_index (split_scenes [''FADE IN:'', ''INT. ROOM - DAY'', ''SARAH'', ''Hello there.'',
                              ''EXT. PARK - DAY'', ''She runs.''] ! 0) = Some 1
   \<and> sc_index (split_scenes [''FADE IN:'', ''INT. ROOM - DAY'', ''SARAH'', ''Hello there.'',
                              ''EXT. PARK - DAY'', ''She runs.''] ! 1) = Some 2
   \<and> concat (map sc_content (split_scenes [''FADE IN:'', ''INT. ROOM - DAY'', ''SARAH'',
                ''Hello there.'', ''EXT. PARK - DAY'', ''She runs.'']))
       = [''SARAH'', ''Hello there.'', ''She runs.'']"
proof -
  let ?L = "[''FADE IN:'', ''INT. ROOM - DAY'', ''SARAH'', ''Hello there.'',
             ''EXT. PARK - DAY'', ''She runs.'']"
  have H: "filter is_scene_heading ?L = [''INT. ROOM - DAY'', ''EXT. PARK - DAY'']"
    by code_simp
  have C: "concat (map sc_content (split_scenes ?L)) = [''SARAH'', ''Hello there.'', ''She runs.'']"
    by code_simp
  from scene_segmentation [of "[]" ?L]
  have len: "length (split_scenes ?L) = length (filter is_scene_heading ?L)"
    and idx: "\<forall>i < length (split_scenes ?L). sc_index (split_scenes ?L ! i) = Some (i + 1)"
    unfolding Let_def by blast+
  from len H have len2: "length (split_scenes ?L) = 2" by simp
  with idx have "sc_index (split_scenes ?L ! 0) = Some 1" "sc_index (split_scenes ?L ! 1) = Some 2"
    by simp_all
  with len2 C show ?thesis by blast
qed

section \<open>The current speaker in the four scans\<close>

lemma isupper_has_cased: "isupper s \<Longrightarrow> \<exists>c \<in> set s. is_cased c"
  by (simp add: isupper_def list_ex_iff)

lemma isupper_upper: "isupper s \<Longrightarrow> upper s = s"
  by (simp add: isupper_def upper_def list_all_iff to_upper_fixes_uncased map_idI)

lemma character_name_isupper: "is_character_name line \<Longrightarrow> isupper (strip line)"
  by (simp add: is_character_name_def Let_def)

lemma character_name_cased: "is_character_name line \<Longrightarrow> \<exists>c \<in> set (strip line). is_cased c"
  by (simp add: character_name_isupper isupper_has_cased)

lemma character_name_upper: "is_character_name line \<Longrightarrow> upper (strip line) = strip line"
  by (simp add: character_name_isupper isupper_upper)

lemma blank_not_character_name: "strip line = [] \<Longrightarrow> \<not> is_character_name line"
  by (simp add: is_character_name_def Let_def isupper_def)

lemma blank_not_dialogue: "strip line = [] \<Longrightarrow> \<not> truthy (is_dialogue line)"
  by (simp add: is_dialogue_def Let_def py_and_def)

lemma blank_not_action: "strip line = [] \<Longrightarrow> \<not> truthy (is_action line)"
  by (simp add: is_action_def Let_def py_and_def)

lemma dialogue_not_character_name: "truthy (is_dialogue line) \<Longrightarrow> \<not> is_character_name line"
  by (auto simp: is_dialogue_def Let_def py_and_def is_character_name_strip split: if_splits)

lemma dialogue_nonblank: "truthy (is_dialogue line) \<Longrightarrow> strip line \<noteq> []"
  using blank_not_dialogue by blast

lemma is_dialogue_strip: "is_dialogue (strip line) = is_dialogue line"
  by (simp add: is_dialogue_def strip_idem)

lemma is_action_strip: "is_action (strip line) = is_action line"
  by (simp add: is_action_def strip_idem)

lemma foldl_invariant:
  assumes "P s" and "\<And>s x. P s \<Longrightarrow> P (f s x)"
  shows "P (foldl f s xs)"
  using assms(1) by (induction xs arbitrary: s) (simp_all add: assms(2))

lemma foldl_unchanged:
  assumes "\<And>s x. x \<in> set xs \<Longrightarrow> g (f s x) = g s"
  shows "g (foldl f s xs) = g s"
  using assms by (induction xs arbitrary: s) simp_all

subsection \<open>The scan of character\_tracking\<close>

lemma ct_step_cue:
  "is_character_name line \<Longrightarrow> ct_current_character (ct_step t line) = Some (strip line)"
  by (simp add: ct_step_def Let_def is_character_name_strip)

lemma ct_step_blank: "strip line = [] \<Longrightarrow> ct_current_character (ct_step t line) = None"
  by (simp add: ct_step_def Let_def strip_Nil is_character_name_def isupper_def
      is_dialogue_def py_and_def)

lemma ct_step_other:
  "\<not> is_character_name line \<Longrightarrow> strip line \<noteq> [] \<Longrightarrow>
     ct_current_character (ct_step t line) = ct_current_character t"
  by (simp add: ct_step_def Let_def is_character_name_strip)

lemma ct_step_unknown:
  "truthy (is_dialogue line) \<Longrightarrow> ct_current_character t = None \<Longrightarrow>
     ct_character_lines (ct_step t line) = add_count UNKNOWN 1 (ct_character_lines t)"
  using dialogue_not_character_name [of line]
  by (simp add: ct_step_def Let_def is_character_name_strip is_dialogue_strip)

lemma ct_step_no_cue:
  "\<not> is_character_name line \<Longrightarrow>
     ct_current_character (ct_step t line) = ct_current_character t
     \<or> ct_current_character (ct_step t line) = None"
  by (cases "strip line = []") (simp_all add: ct_step_blank ct_step_other)

lemma ct_scan_before_cue:
  "\<forall>l \<in> set ls. \<not> is_character_name l \<Longrightarrow> ct_current_character (ct_scan ls) = None"
proof -
  assume a: "\<forall>l \<in> set ls. \<not> is_character_name l"
  have "ct_current_character (foldl ct_step s ls) = None" if "ct_current_character s = None" for s :: tstate
    using a that
  proof (induction ls arbitrary: s)
    case Nil then show ?case by simp
  next
    case (Cons x xs)
    from Cons.prems have "\<not> is_character_name x" by simp
    from ct_step_no_cue [OF this, of s] Cons.prems(2)
    have "ct_current_character (ct_step s x) = None" by simp
    with Cons show ?case by simp
  qed
  then show ?thesis by (simp add: ct_scan_def ct_init_def)
qed

lemma ct_scan_speaker_is_cue:
  "ct_current_character (ct_scan ls) = Some c \<Longrightarrow> is_character_name c"
proof -
  let ?P = "\<lambda>s :: tstate. \<forall>c. ct_current_character s = Some c \<longrightarrow> is_character_name c"
  have "?P (foldl ct_step ct_init ls)"
  proof (rule foldl_invariant)
    show "?P ct_init" by (simp add: ct_init_def)
  next
    fix s x assume "?P s"
    then show "?P (ct_step s x)"
      by (auto simp: ct_step_def Let_def is_character_name_strip)
  qed
  then show "ct_current_character (ct_scan ls) = Some c \<Longrightarrow> is_character_name c"
    by (simp add: ct_scan_def)
qed


subsection \<open>The scan of character\_speaking\_stats\<close>

lemma cs_step_cue:
  "is_character_name line \<Longrightarrow> cs_current_character (cs_step s line) = Some (upper (strip line))"
  by (simp add: cs_step_def)

lemma cs_step_other:
  "\<not> is_character_name line \<Longrightarrow> cs_current_character (cs_step s line) = cs_current_character s"
  by (simp add: cs_step_def Let_def)

lemma cs_step_unknown:
  "truthy (is_dialogue line) \<Longrightarrow> cs_current_character s = None \<Longrightarrow>
     cs_character_line_count (cs_step s line) = add_count UNKNOWN 1 (cs_character_line_count s)
     \<and> cs_character_word_count (cs_step s line)
         = add_count UNKNOWN (length (split_whitespace line)) (cs_character_word_count s)"
  using dialogue_not_character_name [of line]
  by (simp add: cs_step_def Let_def)

lemma cs_scan_before_cue:
  assumes "\<forall>l \<in> set ls. \<not> is_character_name l"
  shows "cs_current_character (foldl cs_step cs_init ls) = None"
proof -
  have "cs_current_character (foldl cs_step cs_init ls) = cs_current_character cs_init"
    by (rule foldl_unchanged) (simp add: assms cs_step_other)
  then show ?thesis by (simp add: cs_init_def)
qed

lemma cs_scan_speaker_is_cue:
  "cs_current_character (foldl cs_step cs_init ls) = Some c \<Longrightarrow> is_character_name c"
proof -
  let ?P = "\<lambda>s :: sstate. \<forall>c. cs_current_character s = Some c \<longrightarrow> is_character_name c"
  have "?P (foldl cs_step cs_init ls)"
  proof (rule foldl_invariant)
    show "?P cs_init" by (simp add: cs_init_def)
  next
    fix s :: sstate and x assume P: "?P s"
    show "?P (cs_step s x)"
    proof (cases "is_character_name x")
      case True
      then show ?thesis
        by (simp add: cs_step_cue character_name_upper is_character_name_strip)
    next
      case False
      with P show ?thesis by (simp add: cs_step_other)
    qed
  qed
  then show "cs_current_character (foldl cs_step cs_init ls) = Some c \<Longrightarrow> is_character_name c"
    by simp
qed

subsection \<open>The scan of one scene in scene\_pacing\_and\_distribution\<close>

lemma sp_step_cue:
  "is_character_name line \<Longrightarrow> sp_current_character (sp_step p line) = Some (upper (strip line))"
  by (simp add: sp_step_def)

lemma sp_step_other:
  "\<not> is_character_name line \<Longrightarrow> sp_current_character (sp_step p line) = sp_current_character p"
  by (simp add: sp_step_def)

lemma sp_step_unknown:
  "truthy (is_dialogue line) \<Longrightarrow> sp_current_character p = None \<Longrightarrow>
     sp_character_lines (sp_step p line) = add_count UNKNOWN 1 (sp_character_lines p)"
  using dialogue_not_character_name [of line]
  by (simp add: sp_step_def)

lemma sp_scene_before_cue:
  assumes "\<forall>l \<in> set (sc_content sc). \<not> is_character_name l"
  shows "sp_current_character (sp_scene p sc) = None"
proof -
  let ?p0 = "p\<lparr>sp_dialogue_count := 0, sp_action_count := 0, sp_current_character := None\<rparr>"
  have "sp_current_character (foldl sp_step ?p0 (sc_content sc)) = sp_current_character ?p0"
    by (rule foldl_unchanged) (simp add: assms sp_step_other)
  then show ?thesis by (simp add: sp_scene_def)
qed

lemma sp_scene_speaker_is_cue:
  "sp_current_character (sp_scene p sc) = Some c \<Longrightarrow> is_character_name c"
proof -
  let ?P = "\<lambda>s :: pstate. \<forall>c. sp_current_character s = Some c \<longrightarrow> is_character_name c"
  let ?p0 = "p\<lparr>sp_dialogue_count := 0, sp_action_count := 0, sp_current_character := None\<rparr>"
  have "?P (foldl sp_step ?p0 (sc_content sc))"
  proof (rule foldl_invariant)
    show "?P ?p0" by simp
  next
    fix s :: pstate and x assume P: "?P s"
    show "?P (sp_step s x)"
    proof (cases "is_character_name x")
      case True
      then show ?thesis
        by (simp add: sp_step_cue character_name_upper is_character_name_strip)
    next
      case False
      with P show ?thesis by (simp add: sp_step_other)
    qed
  qed
  then show "sp_current_character (sp_scene p sc) = Some c \<Longrightarrow> is_character_name c"
    by (simp add: sp_scene_def)
qed

subsection \<open>The scan of character\_development\_validator\<close>

lemma character_name_not_heading: "is_character_name line \<Longrightarrow> \<not> is_scene_heading line"
  using is_scene_heading_strip [of line] by (simp add: is_character_name_def Let_def)

lemma cd_step_cue:
  "is_character_name line \<Longrightarrow>
     cd_current_character (cd_step pn d (i, line)) = Some (strip line)"
  using character_name_not_heading [of line]
  by (simp add: cd_step_def Let_def is_character_name_strip is_scene_heading_strip strip_idem)

lemma cd_step_blank:
  assumes "strip line = []"
  shows "cd_current_character (cd_step pn d (i, line)) = None"
proof -
  have "\<not> is_scene_heading []"
    using scene_heading_nonblank [of "[]"] by (auto simp: strip_Nil)
  moreover have "\<not> is_character_name []" "\<not> truthy (is_dialogue [])" "\<not> truthy (is_action [])"
    by (simp_all add: blank_not_character_name blank_not_dialogue blank_not_action strip_Nil)
  ultimately show ?thesis
    using assms by (simp add: cd_step_def Let_def)
qed

lemma cd_step_other:
  "\<not> is_character_name line \<Longrightarrow> strip line \<noteq> [] \<Longrightarrow>
     cd_current_character (cd_step pn d (i, line)) = cd_current_character d"
  by (simp add: cd_step_def Let_def is_character_name_strip)

lemma cd_step_unattributed:
  "truthy (is_dialogue line) \<Longrightarrow> cd_current_character d = None \<Longrightarrow>
     cd_character_speakers (cd_step pn d (i, line)) = cd_character_speakers d"
  by (simp add: cd_step_def Let_def)

lemma cd_step_no_cue:
  "\<not> is_character_name line \<Longrightarrow>
     cd_current_character (cd_step pn d (i, line)) = cd_current_character d
     \<or> cd_current_character (cd_step pn d (i, line)) = None"
  by (cases "strip line = []") (simp_all add: cd_step_blank cd_step_other)

lemma cd_fold_before_cue:
  assumes "\<forall>il \<in> set ils. \<not> is_character_name (snd il)"
    and "cd_current_character d = None"
  shows "cd_current_character (foldl (cd_step pn) d ils) = None"
  using assms
proof (induction ils arbitrary: d)
  case Nil
  then show ?case by simp
next
  case (Cons il ils)
  obtain i x where il: "il = (i, x)" by (cases il)
  with Cons.prems have "\<not> is_character_name x" by simp
  from cd_step_no_cue [OF this, of pn d i] Cons.prems(2) il
  have "cd_current_character (cd_step pn d il) = None" by simp
  with Cons show ?case by simp
qed

lemma cd_scan_before_cue:
  assumes "\<forall>l \<in> set ls. \<not> is_character_name l"
  shows "cd_current_character (cd_scan pn ls) = None"
proof -
  have "\<forall>il \<in> set (enumerate 0 ls). \<not> is_character_name (snd il)"
    using assms by (auto simp: in_set_enumerate_eq)
  then show ?thesis
    unfolding cd_scan_def by (rule cd_fold_before_cue) (simp add: cd_init_def)
qed

lemma cd_scan_speaker_is_cue:
  "cd_current_character (cd_scan pn ls) = Some c \<Longrightarrow> is_character_name c"
proof -
  let ?P = "\<lambda>s :: dstate. \<forall>c. cd_current_character s = Some c \<longrightarrow> is_character_name c"
  have "?P (foldl (cd_step pn) cd_init (enumerate 0 ls))"
  proof (rule foldl_invariant)
    show "?P cd_init" by (simp add: cd_init_def)
  next
    fix s :: dstate and il :: "nat \<times> string" assume P: "?P s"
    obtain i x where il: "il = (i, x)" by (cases il)
    show "?P (cd_step pn s il)"
    proof (cases "is_character_name x")
      case True
      then show ?thesis
        unfolding il by (simp add: cd_step_cue is_character_name_strip)
    next
      case False
      from cd_step_no_cue [OF this, of pn s i] P show ?thesis
        unfolding il by auto
    qed
  qed
  then show "cd_current_character (cd_scan pn ls) = Some c \<Longrightarrow> is_character_name c"
    by (simp add: cd_scan_def)
qed

lemma set_strip: "set (strip s) \<subseteq> set s"
proof -
  have "set (rstrip t) \<subseteq> set t" for t
    unfolding rstrip_def using set_dropWhileD [of _ isspace "rev t"] by auto
  moreover have "set (lstrip s) \<subseteq> set s"
    unfolding lstrip_def using set_dropWhileD [of _ isspace s] by auto
  ultimately show ?thesis
    unfolding strip_def by blast
qed

lemma cue_has_cased: "is_character_name c \<Longrightarrow> \<exists>ch \<in> set c. is_cased ch"
  using character_name_cased [of c] set_strip [of c] by blast

lemma accented_capital_is_cue: "is_cased (CHR 0xC9) \<and> is_character_name [CHR 0xC9]"
  by code_simp

text \<open>
  C9. A line whose trimmed text has no cased character (no lower-case and no upper-case
  character, accented letters included) is no character cue. In each of the four scans,
  scanning such a line leaves the current speaker as it was or clears it, whatever the
  state of the scan; and whatever was scanned, the current speaker, if there is one, has
  a cased character and so is not the text of such a line: a digits-only or
  punctuation-only line is never the current speaker.
\<close>

theorem caseless_line_never_speaker:
  assumes "\<forall>c \<in> set (strip line). \<not> is_cased c"
  shows "\<not> is_character_name line
    \<and> (ct_current_character (ct_step t line) = ct_current_character t
        \<or> ct_current_character (ct_step t line) = None)
    \<and> (cd_current_character (cd_step pn d (i, line)) = cd_current_character d
        \<or> cd_current_character (cd_step pn d (i, line)) = None)
    \<and> cs_current_character (cs_step s line) = cs_current_character s
    \<and> sp_current_character (sp_step p line) = sp_current_character p
    \<and> (ct_current_character (ct_scan ls) = Some c \<longrightarrow> (\<exists>ch \<in> set c. is_cased ch))
    \<and> (cd_current_character (cd_scan pn ls) = Some c \<longrightarrow> (\<exists>ch \<in> set c. is_cased ch))
    \<and> (cs_current_character (foldl cs_step cs_init ls) = Some c \<longrightarrow> (\<exists>ch \<in> set c. is_cased ch))
    \<and> (sp_current_character (sp_scene p sc) = Some c \<longrightarrow> (\<exists>ch \<in> set c. is_cased ch))
    \<and> ct_current_character (ct_scan ls) \<noteq> Some (strip line)
    \<and> cd_current_character (cd_scan pn ls) \<noteq> Some (strip line)
    \<and> cs_current_character (foldl cs_step cs_init ls) \<noteq> Some (strip line)
    \<and> sp_current_character (sp_scene p sc) \<noteq> Some (strip line)"
proof -
  have no: "\<not> is_character_name line"
    using assms character_name_cased [of line] by blast
  have a: "ct_current_character (ct_scan ls) = Some x \<longrightarrow> (\<exists>ch \<in> set x. is_cased ch)" for x
    using ct_scan_speaker_is_cue [of ls x] cue_has_cased [of x] by blast
  have b: "cd_current_character (cd_scan pn ls) = Some x \<longrightarrow> (\<exists>ch \<in> set x. is_cased ch)" for x
    using cd_scan_speaker_is_cue [of pn ls x] cue_has_cased [of x] by blast
  have c: "cs_current_character (foldl cs_step cs_init ls) = Some x \<longrightarrow> (\<exists>ch \<in> set x. is_cased ch)"
    for x
    using cs_scan_speaker_is_cue [of ls x] cue_has_cased [of x] by blast
  have d: "sp_current_character (sp_scene p sc) = Some x \<longrightarrow> (\<exists>ch \<in> set x. is_cased ch)" for x
    using sp_scene_speaker_is_cue [of p sc x] cue_has_cased [of x] by blast
  have a': "ct_current_character (ct_scan ls) \<noteq> Some (strip line)"
    using a [of "strip line"] assms by blast
  have b': "cd_current_character (cd_scan pn ls) \<noteq> Some (strip line)"
    using b [of "strip line"] assms by blast
  have c': "cs_current_character (foldl cs_step cs_init ls) \<noteq> Some (strip line)"
    using c [of "strip line"] assms by blast
  have d': "sp_current_character (sp_scene p sc) \<noteq> Some (strip line)"
    using d [of "strip line"] assms by blast
  show ?thesis
    by (intro conjI)
      (rule no ct_step_no_cue [OF no] cd_step_no_cue [OF no] cs_step_other [OF no]
        sp_step_other [OF no] a b c d a' b' c' d')+
qed

theorem caseless_line_never_speaker_witness:
  "\<not> is_character_name ''42!''
   \<and> cs_current_character (cs_step (cs_step cs_init ''BOB'') ''42!'') = Some ''BOB''
   \<and> sp_current_character (sp_step (sp_step sp_init ''BOB'') ''42!'') = Some ''BOB''
   \<and> ct_current_character (ct_step (ct_step ct_init ''BOB'') ''42!'') \<noteq> Some ''42!''
   \<and> ct_current_character (ct_scan [''BOB'', ''42!'']) \<noteq> Some ''42!''"
proof -
  have h: "\<forall>c \<in> set (strip ''42!''). \<not> is_cased c" by code_simp
  have s: "strip ''42!'' = ''42!''" by code_simp
  have bob: "ct_current_character (ct_step ct_init ''BOB'') = Some ''BOB''"
    "cs_current_character (cs_step cs_init ''BOB'') = Some ''BOB''"
    "sp_current_character (sp_step sp_init ''BOB'') = Some ''BOB''"
    by code_simp+
  note T = caseless_line_never_speaker [OF h, of "ct_step ct_init ''BOB''" "\<lambda>_. []" cd_init 0
      "cs_step cs_init ''BOB''" "sp_step sp_init ''BOB''" "[''BOB'', ''42!'']" "[]"
      "\<lparr>sc_heading = None, sc_content = [], sc_index = None\<rparr>"]
  from T have "\<not> is_character_name ''42!''" by (rule conjunct1)
  moreover from T bob(2)
  have "cs_current_character (cs_step (cs_step cs_init ''BOB'') ''42!'') = Some ''BOB''"
    by simp
  moreover from T bob(3)
  have "sp_current_character (sp_step (sp_step sp_init ''BOB'') ''42!'') = Some ''BOB''"
    by simp
  moreover from T bob(1)
  have "ct_current_character (ct_step (ct_step ct_init ''BOB'') ''42!'') \<noteq> Some ''42!''"
    by auto
  moreover from T s
  have "ct_current_character (ct_scan [''BOB'', ''42!'']) \<noteq> Some ''42!''"
    by simp
  ultimately show ?thesis by blast
qed

text \<open>
  C2, as the code has it. In character\_tracking and character\_development\_validator the
  current speaker is none at the start and before the first cue, is set by a cue, cleared
  by a blank line and kept by every other line, scene headings included. In
  character\_speaking\_stats it is none at the start, set by a cue and kept by every other
  line, blank lines included. In scene\_pacing\_and\_distribution it is reset to none at
  the start of each scene, set by a cue and kept by every other line, blank lines
  included. A dialogue line scanned with no current speaker is counted under UNKNOWN in
  character\_tracking, character\_speaking\_stats and scene\_pacing\_and\_distribution, and
  is not counted at all in character\_development\_validator.
\<close>

theorem speaker_context_per_scan:
  "ct_current_character ct_init = None
   \<and> (is_character_name line \<longrightarrow> ct_current_character (ct_step t line) = Some (strip line))
   \<and> (strip line = [] \<longrightarrow> ct_current_character (ct_step t line) = None)
   \<and> (\<not> is_character_name line \<and> strip line \<noteq> [] \<longrightarrow>
        ct_current_character (ct_step t line) = ct_current_character t)
   \<and> (truthy (is_dialogue line) \<and> ct_current_character t = None \<longrightarrow>
        ct_character_lines (ct_step t line) = add_count UNKNOWN 1 (ct_character_lines t))
   \<and> ((\<forall>l \<in> set ls. \<not> is_character_name l) \<longrightarrow> ct_current_character (ct_scan ls) = None)
   \<and> cd_current_character cd_init = None
   \<and> (is_character_name line \<longrightarrow>
        cd_current_character (cd_step pn d (i, line)) = Some (strip line))
   \<and> (strip line = [] \<longrightarrow> cd_current_character (cd_step pn d (i, line)) = None)
   \<and> (\<not> is_character_name line \<and> strip line \<noteq> [] \<longrightarrow>
        cd_current_character (cd_step pn d (i, line)) = cd_current_character d)
   \<and> (truthy (is_dialogue line) \<and> cd_current_character d = None \<longrightarrow>
        cd_character_speakers (cd_step pn d (i, line)) = cd_character_speakers d)
   \<and> ((\<forall>l \<in> set ls. \<not> is_character_name l) \<longrightarrow> cd_current_character (cd_scan pn ls) = None)
   \<and> cs_current_character cs_init = None
   \<and> (is_character_name line \<longrightarrow>
        cs_current_character (cs_step s line) = Some (upper (strip line)))
   \<and> (\<not> is_character_name line \<longrightarrow>
        cs_current_character (cs_step s line) = cs_current_character s)
   \<and> (strip line = [] \<longrightarrow> cs_current_character (cs_step s line) = cs_current_character s)
   \<and> (truthy (is_dialogue line) \<and> cs_current_character s = None \<longrightarrow>
        cs_character_line_count (cs_step s line) = add_count UNKNOWN 1 (cs_character_line_count s))
   \<and> ((\<forall>l \<in> set ls. \<not> is_character_name l) \<longrightarrow>
        cs_current_character (foldl cs_step cs_init ls) = None)
   \<and> ((\<forall>l \<in> set (sc_content sc). \<not> is_character_name l) \<longrightarrow>
        sp_current_character (sp_scene p sc) = None)
   \<and> (is_character_name line \<longrightarrow>
        sp_current_character (sp_step p line) = Some (upper (strip line)))
   \<and> (\<not> is_character_name line \<longrightarrow>
        sp_current_character (sp_step p line) = sp_current_character p)
   \<and> (strip line = [] \<longrightarrow> sp_current_character (sp_step p line) = sp_current_character p)
   \<and> (truthy (is_dialogue line) \<and> sp_current_character p = None \<longrightarrow>
        sp_character_lines (sp_step p line) = add_count UNKNOWN 1 (sp_character_lines p))"
proof -
  have i1: "ct_current_character ct_init = None" by (simp add: ct_init_def)
  have i2: "cd_current_character cd_init = None" by (simp add: cd_init_def)
  have i3: "cs_current_character cs_init = None" by (simp add: cs_init_def)
  have b1: "strip line = [] \<Longrightarrow> cs_current_character (cs_step s line) = cs_current_character s"
    using blank_not_character_name [of line] cs_step_other [of line s] by blast
  have b2: "strip line = [] \<Longrightarrow> sp_current_character (sp_step p line) = sp_current_character p"
    using blank_not_character_name [of line] sp_step_other [of line p] by blast
  have u1: "truthy (is_dialogue line) \<and> ct_current_character t = None \<Longrightarrow>
        ct_character_lines (ct_step t line) = add_count UNKNOWN 1 (ct_character_lines t)"
    using ct_step_unknown [of line t] by blast
  have u2: "truthy (is_dialogue line) \<and> cd_current_character d = None \<Longrightarrow>
        cd_character_speakers (cd_step pn d (i, line)) = cd_character_speakers d"
    using cd_step_unattributed [of line d pn i] by blast
  have u3: "truthy (is_dialogue line) \<and> cs_current_character s = None \<Longrightarrow>
        cs_character_line_count (cs_step s line) = add_count UNKNOWN 1 (cs_character_line_count s)"
    using cs_step_unknown [of line s] by blast
  have u4: "truthy (is_dialogue line) \<and> sp_current_character p = None \<Longrightarrow>
        sp_character_lines (sp_step p line) = add_count UNKNOWN 1 (sp_character_lines p)"
    using sp_step_unknown [of line p] by blast
  have o1: "\<not> is_character_name line \<and> strip line \<noteq> [] \<Longrightarrow>
        ct_current_character (ct_step t line) = ct_current_character t"
    using ct_step_other [of line t] by blast
  have o2: "\<not> is_character_name line \<and> strip line \<noteq> [] \<Longrightarrow>
        cd_current_character (cd_step pn d (i, line)) = cd_current_character d"
    using cd_step_other [of line pn d i] by blast
  show ?thesis
    by (intro conjI impI)
      (rule i1 i2 i3, (erule ct_step_cue ct_step_blank o1 u1 ct_scan_before_cue
        cd_step_cue cd_step_blank o2 u2 cd_scan_before_cue
        cs_step_cue cs_step_other b1 u3 cs_scan_before_cue
        sp_scene_before_cue sp_step_cue sp_step_other b2 u4)+)+
qed

theorem speaker_context_per_scan_witness:
  "ct_current_character (ct_step ct_init ''SARAH'') = Some (strip ''SARAH'')
   \<and> ct_current_character (ct_step (ct_step ct_init ''SARAH'') []) = None
   \<and> ct_character_lines (ct_step ct_init ''Hello there.'') = add_count UNKNOWN 1 (ct_character_lines ct_init)"
proof -
  have h1: "is_character_name ''SARAH''" by code_simp
  have h2: "strip [] = []" by code_simp
  have h3: "truthy (is_dialogue ''Hello there.'') \<and> ct_current_character ct_init = None"
    by code_simp
  note A = speaker_context_per_scan [of "''SARAH''" ct_init "[]" "\<lambda>_. []" cd_init 0 cs_init
      "\<lparr>sc_heading = None, sc_content = [], sc_index = None\<rparr>" sp_init]
  note B = speaker_context_per_scan [of "[]" "ct_step ct_init ''SARAH''" "[]" "\<lambda>_. []" cd_init 0
      cs_init "\<lparr>sc_heading = None, sc_content = [], sc_index = None\<rparr>" sp_init]
  note C = speaker_context_per_scan [of "''Hello there.''" ct_init "[]" "\<lambda>_. []" cd_init 0 cs_init
      "\<lparr>sc_heading = None, sc_content = [], sc_index = None\<rparr>" sp_init]
  from A [THEN conjunct2, THEN conjunct1, rule_format, OF h1]
    B [THEN conjunct2, THEN conjunct2, THEN conjunct1, rule_format, OF h2]
    C [THEN conjunct2, THEN conjunct2, THEN conjunct2, THEN conjunct2, THEN conjunct1,
       rule_format, OF h3]
  show ?thesis by (intro conjI)
qed

text \<open>
  C2 as stated fails: in character\_speaking\_stats a blank line does not clear the
  current speaker, and the dialogue line after it is counted for BOB, not for UNKNOWN.
\<close>

theorem speaking_stats_blank_keeps_speaker:
  "cs_current_character (foldl cs_step cs_init [''BOB'', []]) = Some ''BOB''
   \<and> truthy (is_dialogue ''Hello there.'')
   \<and> cs_character_line_count
        (character_speaking_stats_scan (join_newline [''BOB'', [], ''Hello there.'']))
       = [(''BOB'', 1)]"
  by code_simp

section \<open>scene\_structure\_validator: what the loop reports\<close>

lemma py_index_in_range: "i < length xs \<Longrightarrow> py_index xs (int i) = Inr (xs ! i)"
  by (simp add: py_index_def)

lemma transition_unfollowed_eq:
  "transition_unfollowed lines i =
     Inr (length lines \<le> i + 1 \<or> \<not> is_scene_heading (lines ! (i + 1)))"
proof (cases "length lines \<le> i + 1")
  case True
  then show ?thesis by (simp add: transition_unfollowed_def)
next
  case False
  then have "i + 1 < length lines" by simp
  from py_index_in_range [OF this] have "py_index lines (int i + 1) = Inr (lines ! (i + 1))"
    by (simp add: add.commute)
  with False show ?thesis by (simp add: transition_unfollowed_def err_bind_def)
qed

lemma cue_before_eq:
  assumes "i < length lines"
  shows "cue_before lines i = Inr (1 \<le> i \<and> is_character_name (lines ! (i - 1)))"
proof (cases "1 \<le> i")
  case True
  with assms have "i - 1 < length lines" by simp
  from py_index_in_range [OF this] True
  have "py_index lines (int i - 1) = Inr (lines ! (i - 1))" by (simp add: of_nat_diff)
  with True show ?thesis by (simp add: cue_before_def err_bind_def)
next
  case False
  then show ?thesis by (simp add: cue_before_def)
qed

lemma index_back_one:
  "1 \<le> i \<Longrightarrow> i < length lines \<Longrightarrow> py_index lines (int i - 1) = Inr (lines ! (i - 1))"
  using py_index_in_range [of "i - 1" lines] by (simp add: of_nat_diff)

lemma index_back_two:
  "2 \<le> i \<Longrightarrow> i < length lines \<Longrightarrow> py_index lines (int i - 2) = Inr (lines ! (i - 2))"
  using py_index_in_range [of "i - 2" lines] by (simp add: of_nat_diff)

lemma cue_before_emotion_eq:
  assumes "i < length lines"
  shows "cue_before_emotion lines i =
           Inr (2 \<le> i \<and> is_emotion (lines ! (i - 1)) \<and> is_character_name (lines ! (i - 2)))"
proof (cases "2 \<le> i")
  case True
  then have "1 \<le> i" by simp
  from index_back_one [OF this assms] index_back_two [OF True assms] True
  show ?thesis by (simp add: cue_before_emotion_def err_bind_def)
next
  case False
  then show ?thesis by (simp add: cue_before_emotion_def)
qed

lemma count_of_add_count:
  "count_of (add_count k n d) k' = count_of d k' + (if k = k' then n else 0)"
  by (induction d) (auto simp: count_of_def)

lemma attribute_dialogue_effect:
  assumes "i < length lines"
  shows "\<exists>st'. attribute_dialogue lines st i = Inr st'
     \<and> v_header_issues st' = v_header_issues st
     \<and> v_scene_issues st' = v_scene_issues st @
          (if \<not> (1 \<le> i \<and> is_character_name (lines ! (i - 1)))
              \<and> \<not> (2 \<le> i \<and> is_emotion (lines ! (i - 1)) \<and> is_character_name (lines ! (i - 2)))
           then [dialogue_error i] else [])
     \<and> count_of (v_character_lines st) UNKNOWN +
          (if \<not> (1 \<le> i \<and> is_character_name (lines ! (i - 1)))
              \<and> \<not> (2 \<le> i \<and> is_emotion (lines ! (i - 1)) \<and> is_character_name (lines ! (i - 2)))
           then 1 else 0) \<le> count_of (v_character_lines st') UNKNOWN"
proof (cases "1 \<le> i \<and> is_character_name (lines ! (i - 1))")
  case True
  then have "1 \<le> i" by simp
  from index_back_one [OF this assms] True show ?thesis
    by (simp add: attribute_dialogue_def cue_before_eq [OF assms] err_bind_def count_of_add_count)
next
  case direct: False
  show ?thesis
  proof (cases "2 \<le> i \<and> is_emotion (lines ! (i - 1)) \<and> is_character_name (lines ! (i - 2))")
    case True
    then have "2 \<le> i" by simp
    from index_back_two [OF this assms] True direct show ?thesis
      by (simp add: attribute_dialogue_def cue_before_eq [OF assms]
          cue_before_emotion_eq [OF assms] err_bind_def count_of_add_count)
  next
    case False
    have cb: "cue_before lines i = Inr False"
      using direct by (simp only: cue_before_eq [OF assms])
    have ce: "cue_before_emotion lines i = Inr False"
      using False by (simp only: cue_before_emotion_eq [OF assms])
    from direct False
    have both: "(\<not> (1 \<le> i \<and> is_character_name (lines ! (i - 1)))
        \<and> \<not> (2 \<le> i \<and> is_emotion (lines ! (i - 1)) \<and> is_character_name (lines ! (i - 2)))) = True"
      by (simp only: simp_thms)
    show ?thesis
      unfolding attribute_dialogue_def cb ce err_bind_def both
      by (simp add: count_of_add_count)
  qed
qed

lemma transition_nonblank: "is_transition l \<Longrightarrow> strip l \<noteq> []"
  using is_transition_last by blast

lemma validator_step_effect:
  assumes "i < length lines"
  shows "\<exists>st'. validator_step lines st (i, lines ! i) = Inr st'
     \<and> v_header_issues st' = v_header_issues st @
          (if unfollowed_transition lines i then [transition_warning i] else [])
     \<and> v_scene_issues st' = v_scene_issues st @
          (if unattributed_dialogue lines i then [dialogue_error i] else [])
     \<and> count_of (v_character_lines st) UNKNOWN +
          (if unattributed_dialogue lines i then 1 else 0)
          \<le> count_of (v_character_lines st') UNKNOWN"
proof -
  let ?l = "lines ! i"
  let ?s = "strip ?l"
  note strips = is_scene_heading_strip is_transition_strip is_action_strip is_dialogue_strip
  consider (blank) "?s = []"
    | (heading) "?s \<noteq> []" "is_scene_heading ?l"
    | (transition) "?s \<noteq> []" "\<not> is_scene_heading ?l" "is_transition ?l"
    | (action) "?s \<noteq> []" "\<not> is_scene_heading ?l" "\<not> is_transition ?l" "truthy (is_action ?l)"
    | (dialogue) "?s \<noteq> []" "\<not> is_scene_heading ?l" "\<not> is_transition ?l"
        "\<not> truthy (is_action ?l)" "truthy (is_dialogue ?l)"
    | (other) "?s \<noteq> []" "\<not> is_scene_heading ?l" "\<not> is_transition ?l"
        "\<not> truthy (is_action ?l)" "\<not> truthy (is_dialogue ?l)"
    by blast
  then show ?thesis
  proof cases
    case blank
    have step: "validator_step lines st (i, ?l) = Inr st"
      using blank by (simp add: validator_step_def)
    have "\<not> is_transition ?l"
      using blank transition_nonblank [of ?l] by (rule contrapos_pn)
    then have uf: "unfollowed_transition lines i = False"
      by (simp add: unfollowed_transition_def)
    have "\<not> truthy (is_dialogue ?l)"
      using blank by (rule blank_not_dialogue)
    then have ua: "unattributed_dialogue lines i = False"
      by (simp add: unattributed_dialogue_def)
    show ?thesis unfolding step uf ua by simp
  next
    case heading
    have step: "validator_step lines st (i, ?l) =
        Inr (st\<lparr>v_scene_count := v_scene_count st + 1,
                 v_valid_headings := v_valid_headings st @ [''    - '' @ ?s @ '' '' @ check_mark]\<rparr>)"
      using heading by (simp add: validator_step_def strips)
    have uf: "unfollowed_transition lines i = False"
      using heading by (simp add: unfollowed_transition_def)
    have ua: "unattributed_dialogue lines i = False"
      using heading by (simp add: unattributed_dialogue_def)
    show ?thesis unfolding step uf ua by simp
  next
    case transition
    let ?flag = "length lines \<le> i + 1 \<or> \<not> is_scene_heading (lines ! (i + 1))"
    have step: "validator_step lines st (i, ?l) =
        Inr (if ?flag then st\<lparr>v_header_issues := v_header_issues st @ [transition_warning i]\<rparr>
             else st)"
      using transition
      by (simp add: validator_step_def strips transition_unfollowed_eq err_bind_def)
    have uf: "unfollowed_transition lines i = ?flag"
      using transition by (simp add: unfollowed_transition_def)
    have ua: "unattributed_dialogue lines i = False"
      using transition by (simp add: unattributed_dialogue_def)
    show ?thesis unfolding step uf ua by simp
  next
    case action
    have step: "validator_step lines st (i, ?l) = Inr (st\<lparr>v_action_present := True\<rparr>)"
      using action by (simp add: validator_step_def strips)
    have uf: "unfollowed_transition lines i = False"
      using action by (simp add: unfollowed_transition_def)
    have ua: "unattributed_dialogue lines i = False"
      using action by (simp add: unattributed_dialogue_def)
    show ?thesis unfolding step uf ua by simp
  next
    case dialogue
    have step: "validator_step lines st (i, ?l) = attribute_dialogue lines st i"
      using dialogue by (simp add: validator_step_def strips)
    have uf: "unfollowed_transition lines i = False"
      using dialogue by (simp add: unfollowed_transition_def)
    have ua: "unattributed_dialogue lines i =
        (\<not> (1 \<le> i \<and> is_character_name (lines ! (i - 1)))
         \<and> \<not> (2 \<le> i \<and> is_emotion (lines ! (i - 1)) \<and> is_character_name (lines ! (i - 2))))"
      using dialogue by (simp add: unattributed_dialogue_def)
    from attribute_dialogue_effect [OF assms, of st] show ?thesis
      unfolding step uf ua by simp
  next
    case other
    have step: "validator_step lines st (i, ?l) = Inr st"
      using other by (simp add: validator_step_def strips)
    have uf: "unfollowed_transition lines i = False"
      using other by (simp add: unfollowed_transition_def)
    have ua: "unattributed_dialogue lines i = False"
      using other by (simp add: unattributed_dialogue_def)
    show ?thesis unfolding step uf ua by simp
  qed
qed

lemma enumerate_nth: "enumerate 0 xs = map (\<lambda>i. (i, xs ! i)) [0..<length xs]"
proof -
  have "enumerate 0 (map ((!) xs) [0..<length xs]) = map (\<lambda>k. (k, xs ! k)) [0..<length xs]"
    by (rule enumerate_map_upt)
  then show ?thesis by (simp only: map_nth)
qed

lemma for_each_validator:
  assumes "\<forall>i \<in> set js. i < length lines"
  shows "\<exists>st'. for_each (validator_step lines) (map (\<lambda>i. (i, lines ! i)) js) st = Inr st'
     \<and> v_header_issues st' = v_header_issues st @
          map transition_warning (filter (unfollowed_transition lines) js)
     \<and> v_scene_issues st' = v_scene_issues st @
          map dialogue_error (filter (unattributed_dialogue lines) js)
     \<and> count_of (v_character_lines st) UNKNOWN +
          length (filter (unattributed_dialogue lines) js)
          \<le> count_of (v_character_lines st') UNKNOWN"
  using assms
proof (induction js arbitrary: st)
  case Nil
  show ?case by simp
next
  case (Cons j js)
  then have j: "j < length lines" and rest: "\<forall>i \<in> set js. i < length lines"
    by simp_all
  from validator_step_effect [OF j, of st] obtain st1 where
    s1: "validator_step lines st (j, lines ! j) = Inr st1"
    and h1: "v_header_issues st1 = v_header_issues st @
          (if unfollowed_transition lines j then [transition_warning j] else [])"
    and i1: "v_scene_issues st1 = v_scene_issues st @
          (if unattributed_dialogue lines j then [dialogue_error j] else [])"
    and c1: "count_of (v_character_lines st) UNKNOWN +
          (if unattributed_dialogue lines j then 1 else 0)
          \<le> count_of (v_character_lines st1) UNKNOWN"
    by blast
  from Cons.IH [OF rest, of st1] obtain st2 where
    s2: "for_each (validator_step lines) (map (\<lambda>i. (i, lines ! i)) js) st1 = Inr st2"
    and h2: "v_header_issues st2 = v_header_issues st1 @
          map transition_warning (filter (unfollowed_transition lines) js)"
    and i2: "v_scene_issues st2 = v_scene_issues st1 @
          map dialogue_error (filter (unattributed_dialogue lines) js)"
    and c2: "count_of (v_character_lines st1) UNKNOWN +
          length (filter (unattributed_dialogue lines) js)
          \<le> count_of (v_character_lines st2) UNKNOWN"
    by blast
  have run: "for_each (validator_step lines) (map (\<lambda>i. (i, lines ! i)) (j # js)) st = Inr st2"
    using s1 s2 by simp
  have h: "v_header_issues st2 = v_header_issues st @
          map transition_warning (filter (unfollowed_transition lines) (j # js))"
    using h1 h2 by simp
  have i: "v_scene_issues st2 = v_scene_issues st @
          map dialogue_error (filter (unattributed_dialogue lines) (j # js))"
    using i1 i2 by simp
  have c: "count_of (v_character_lines st) UNKNOWN +
          length (filter (unattributed_dialogue lines) (j # js))
          \<le> count_of (v_character_lines st2) UNKNOWN"
    using c1 c2 by (cases "unattributed_dialogue lines j") simp_all
  from run h i c show ?case by blast
qed

lemma validator_scan_effect:
  "\<exists>st. validator_scan lines = Inr st
     \<and> v_header_issues st =
          map transition_warning (filter (unfollowed_transition lines) [0..<length lines])
     \<and> v_scene_issues st =
          map dialogue_error (filter (unattributed_dialogue lines) [0..<length lines])
     \<and> length (filter (unattributed_dialogue lines) [0..<length lines])
          \<le> count_of (v_character_lines st) UNKNOWN"
proof -
  have "\<forall>i \<in> set [0..<length lines]. i < length lines" by simp
  from for_each_validator [OF this, of v_init]
  show ?thesis
    by (simp add: validator_scan_def enumerate_nth v_init_def count_of_def)
qed

lemma scene_structure_validator_returns: "\<exists>r. scene_structure_validator script = Inr r"
proof -
  from validator_scan_effect [of "split_newline (strip script)"] obtain st where
    "validator_scan (split_newline (strip script)) = Inr st" by blast
  then show ?thesis
    by (simp add: scene_structure_validator_def err_bind_def)
qed

lemma unfollowed_flagged:
  assumes "validator_scan lines = Inr st"
    and "v_header_issues st =
          map transition_warning (filter (unfollowed_transition lines) [0..<length lines])"
    and "i < length lines" and "unfollowed_transition lines i"
  shows "transition_warning i \<in> set (v_header_issues st)"
proof -
  from assms(3,4) have "i \<in> set (filter (unfollowed_transition lines) [0..<length lines])"
    by simp
  then have "transition_warning i
      \<in> transition_warning ` set (filter (unfollowed_transition lines) [0..<length lines])"
    by (rule imageI)
  then show ?thesis
    unfolding assms(2) by (simp only: set_map)
qed

lemma issue_in_report:
  assumes "x \<in> set (v_scene_issues st)"
  shows "''    - '' @ x \<in> set (validator_report st)"
proof -
  from assms have ne: "v_scene_issues st \<noteq> []" by auto
  from assms have "''    - '' @ x \<in> set (map (\<lambda>issue. ''    - '' @ issue) (v_scene_issues st))"
    by simp
  with ne show ?thesis
    unfolding validator_report_def by simp
qed

text \<open>
  C10, as the code has it. scene\_structure\_validator returns a report for every script:
  no read of \<open>lines[i + 1]\<close> is out of range. The header issues are the warnings for
  exactly the lines that reach the transition check (transitions that are no scene
  headings) and have no next line or a next line that is no scene heading. So such a
  line is flagged when it is the last one, and when a blank line and then a scene heading
  follow it. A line that is a scene heading as well as a transition is taken as a scene
  heading and never reaches the check.
\<close>

theorem transition_check_next_line_only:
  "(\<exists>r. scene_structure_validator script = Inr r)
   \<and> (\<exists>st. validator_scan lines = Inr st
        \<and> v_header_issues st =
             map transition_warning (filter (unfollowed_transition lines) [0..<length lines])
        \<and> (i < length lines \<and> is_transition (lines ! i) \<and> \<not> is_scene_heading (lines ! i)
             \<and> (i + 1 = length lines \<or> \<not> is_scene_heading (lines ! (i + 1)))
             \<longrightarrow> transition_warning i \<in> set (v_header_issues st))
        \<and> (i + 2 < length lines \<and> is_transition (lines ! i) \<and> \<not> is_scene_heading (lines ! i)
             \<and> strip (lines ! (i + 1)) = [] \<and> is_scene_heading (lines ! (i + 2))
             \<longrightarrow> transition_warning i \<in> set (v_header_issues st)))"
proof -
  from validator_scan_effect [of lines] obtain st where
    run: "validator_scan lines = Inr st"
    and hdr: "v_header_issues st =
          map transition_warning (filter (unfollowed_transition lines) [0..<length lines])"
    by blast
  have a: "transition_warning i \<in> set (v_header_issues st)"
    if "i < length lines \<and> is_transition (lines ! i) \<and> \<not> is_scene_heading (lines ! i)
        \<and> (i + 1 = length lines \<or> \<not> is_scene_heading (lines ! (i + 1)))"
  proof -
    from that have "unfollowed_transition lines i"
      by (auto simp: unfollowed_transition_def)
    with that show ?thesis by (simp add: unfollowed_flagged [OF run hdr])
  qed
  have b: "transition_warning i \<in> set (v_header_issues st)"
    if "i + 2 < length lines \<and> is_transition (lines ! i) \<and> \<not> is_scene_heading (lines ! i)
        \<and> strip (lines ! (i + 1)) = [] \<and> is_scene_heading (lines ! (i + 2))"
  proof -
    from that have "\<not> is_scene_heading (lines ! (i + 1))"
      using scene_heading_nonblank [of "lines ! (i + 1)"] by blast
    with that have "unfollowed_transition lines i"
      by (simp add: unfollowed_transition_def)
    moreover from that have "i < length lines" by simp
    ultimately show ?thesis by (simp add: unfollowed_flagged [OF run hdr])
  qed
  from run hdr a b scene_structure_validator_returns [of script] show ?thesis by blast
qed

theorem transition_check_next_line_only_witness:
  "\<exists>st. validator_scan [''CUT TO:'', [], ''INT. ROOM - DAY''] = Inr st
     \<and> transition_warning 0 \<in> set (v_header_issues st)"
proof -
  let ?L = "[''CUT TO:'', [], ''INT. ROOM - DAY'']"
  have h: "0 + 2 < length ?L \<and> is_transition (?L ! 0) \<and> \<not> is_scene_heading (?L ! 0)
        \<and> strip (?L ! (0 + 1)) = [] \<and> is_scene_heading (?L ! (0 + 2))"
    by code_simp
  from transition_check_next_line_only [of "[]" ?L 0] h show ?thesis by blast
qed

text \<open>
  C10 as stated fails: a final line that satisfies \<open>is_transition\<close> and is a scene heading
  too is counted as a heading and not flagged.
\<close>

theorem heading_transition_not_flagged:
  "is_transition ''INT. LAB - CUT TO:''
   \<and> validator_scan [''INT. LAB - CUT TO:''] =
       Inr (v_init\<lparr>v_scene_count := 1,
                    v_valid_headings := [''    - INT. LAB - CUT TO: '' @ check_mark]\<rparr>)
   \<and> v_header_issues (v_init\<lparr>v_scene_count := 1,
                    v_valid_headings := [''    - INT. LAB - CUT TO: '' @ check_mark]\<rparr>) = []"
  by code_simp

section \<open>No exceptions, and the UNKNOWN speaker\<close>

lemma keys_add_count: "fst ` set (add_count k n d) = insert k (fst ` set d)"
  by (induction k n d rule: add_count.induct) (auto simp: image_iff)

lemma ct_step_keys:
  "fst ` set (ct_character_lines t) \<subseteq> fst ` set (ct_character_lines (ct_step t l))"
  by (auto simp: ct_step_def Let_def keys_add_count)

lemma ct_fold_keys:
  "fst ` set (ct_character_lines t) \<subseteq> fst ` set (ct_character_lines (foldl ct_step t ls))"
proof (induction ls arbitrary: t)
  case Nil
  show ?case by simp
next
  case (Cons l ls)
  from ct_step_keys [of t l] Cons [of "ct_step t l"] show ?case by simp
qed

lemma ct_unknown_counted:
  assumes "truthy (is_dialogue l)" and "ct_current_character (ct_scan pre) = None"
  shows "UNKNOWN \<in> fst ` set (ct_character_lines (ct_scan (pre @ l # post)))"
proof -
  let ?t = "ct_step (ct_scan pre) l"
  from ct_step_unknown [OF assms]
  have "UNKNOWN \<in> fst ` set (ct_character_lines ?t)"
    by (simp add: keys_add_count)
  moreover have "ct_scan (pre @ l # post) = foldl ct_step ?t post"
    by (simp add: ct_scan_def)
  ultimately show ?thesis
    using ct_fold_keys [of ?t post] by auto
qed

lemma map_err_total:
  assumes "\<And>x. x \<in> set xs \<Longrightarrow> \<exists>y. f x = Inr y"
  shows "\<exists>ys. map_err f xs = Inr ys"
  using assms
proof (induction xs)
  case Nil
  show ?case by simp
next
  case (Cons x xs)
  from Cons.prems [of x] obtain y where y: "f x = Inr y" by auto
  from Cons.IH Cons.prems obtain ys where ys: "map_err f xs = Inr ys" by auto
  from y ys show ?case by simp
qed

lemma distribution_line_total: "\<exists>y. distribution_line percent_text n kv = Inr y"
  by (simp add: distribution_line_def true_div_def err_bind_def)

lemma ct_report_total:
  "\<exists>rl. ct_report percent_text t = Inr rl
     \<and> (UNKNOWN \<in> fst ` set (ct_character_lines t) \<longrightarrow>
          ''    - '' @ warning_sign @ '' Some dialogue has no character assigned'' \<in> set rl)"
proof -
  let ?total = "sum_list (map snd (ct_character_lines t))"
  from map_err_total [of "ct_character_lines t" "distribution_line percent_text ?total"]
    distribution_line_total [of percent_text ?total]
  obtain ds where ds: "map_err (distribution_line percent_text ?total) (ct_character_lines t) = Inr ds"
    by blast
  show ?thesis
    unfolding ct_report_def Let_def ds err_bind_def by simp
qed

lemma character_tracking_returns: "\<exists>r. character_tracking percent_text script = Inr r"
proof -
  from ct_report_total [of percent_text "ct_scan (split_newline (strip script))"]
  obtain rl where "ct_report percent_text (ct_scan (split_newline (strip script))) = Inr rl"
    by blast
  then show ?thesis
    by (simp add: character_tracking_def err_bind_def)
qed

lemma unattributed_reported:
  assumes "validator_scan lines = Inr st"
    and "v_scene_issues st =
          map dialogue_error (filter (unattributed_dialogue lines) [0..<length lines])"
    and "length (filter (unattributed_dialogue lines) [0..<length lines])
          \<le> count_of (v_character_lines st) UNKNOWN"
    and "i < length lines" and "unattributed_dialogue lines i"
  shows "1 \<le> count_of (v_character_lines st) UNKNOWN
     \<and> dialogue_error i \<in> set (v_scene_issues st)
     \<and> ''    - '' @ dialogue_error i \<in> set (validator_report st)"
proof -
  from assms(4,5) have mem: "i \<in> set (filter (unattributed_dialogue lines) [0..<length lines])"
    by simp
  then have "filter (unattributed_dialogue lines) [0..<length lines] \<noteq> []"
    by (rule contrapos_pn) simp
  then have "1 \<le> length (filter (unattributed_dialogue lines) [0..<length lines])"
    by (simp add: Suc_le_eq)
  with assms(3) have c: "1 \<le> count_of (v_character_lines st) UNKNOWN"
    by linarith
  from mem have "dialogue_error i
      \<in> dialogue_error ` set (filter (unattributed_dialogue lines) [0..<length lines])"
    by (rule imageI)
  then have m: "dialogue_error i \<in> set (v_scene_issues st)"
    unfolding assms(2) by (simp only: set_map)
  from c m issue_in_report [OF m] show ?thesis by simp
qed

lemma is_action_shape: "is_action line = PStr [] \<or> (\<exists>b. is_action line = PBool b)"
  by (simp add: is_action_def Let_def py_and_def)

lemma is_dialogue_shape: "is_dialogue line = PStr [] \<or> (\<exists>b. is_dialogue line = PBool b)"
  by (simp add: is_dialogue_def Let_def py_and_def)

lemma digits_inj: "a < 10 \<Longrightarrow> b < 10 \<Longrightarrow> digits ! a = digits ! b \<Longrightarrow> a = b"
proof -
  assume a: "a < 10" and b: "b < 10" and e: "digits ! a = digits ! b"
  have d: "distinct digits" and l: "length digits = 10" by (simp_all add: digits_def)
  from d a b e l show "a = b" by (simp add: nth_eq_iff_index_eq)
qed

lemma str_nat_small: "n < 10 \<Longrightarrow> str_nat n = [digits ! n]"
  by (simp add: str_nat.simps)

lemma str_nat_large:
  "\<not> n < 10 \<Longrightarrow> str_nat n = str_nat (n div 10) @ [digits ! (n mod 10)]"
  by (subst str_nat.simps) simp

lemma str_nat_nonempty: "str_nat n \<noteq> []"
  by (cases "n < 10") (simp_all add: str_nat_small str_nat_large)

lemma str_nat_inj: "str_nat n = str_nat m \<Longrightarrow> n = m"
proof (induction n arbitrary: m rule: str_nat.induct)
  case (1 n)
  show ?case
  proof (cases "n < 10")
    case small: True
    show ?thesis
    proof (cases "m < 10")
      case True
      with small "1.prems" have "digits ! n = digits ! m"
        by (simp add: str_nat_small)
      with small True show ?thesis by (rule digits_inj)
    next
      case False
      with small "1.prems" have "[digits ! n] = str_nat (m div 10) @ [digits ! (m mod 10)]"
        by (simp add: str_nat_small str_nat_large)
      then have "str_nat (m div 10) = []" by simp
      with str_nat_nonempty [of "m div 10"] show ?thesis by simp
    qed
  next
    case large: False
    show ?thesis
    proof (cases "m < 10")
      case True
      with large "1.prems" have "str_nat (n div 10) @ [digits ! (n mod 10)] = [digits ! m]"
        by (simp add: str_nat_small str_nat_large)
      then have "str_nat (n div 10) = []" by simp
      with str_nat_nonempty [of "n div 10"] show ?thesis by simp
    next
      case False
      with large "1.prems"
      have "str_nat (n div 10) @ [digits ! (n mod 10)] = str_nat (m div 10) @ [digits ! (m mod 10)]"
        by (simp add: str_nat_large)
      then have q: "str_nat (n div 10) = str_nat (m div 10)"
        and r: "digits ! (n mod 10) = digits ! (m mod 10)"
        by simp_all
      from "1.IH" [OF large q] have dv: "n div 10 = m div 10" .
      have "n mod 10 < 10" "m mod 10 < 10" by simp_all
      from this r have md: "n mod 10 = m mod 10" by (rule digits_inj)
      have "n = 10 * (n div 10) + n mod 10" by simp
      also have "\<dots> = 10 * (m div 10) + m mod 10" by (simp only: dv md)
      also have "\<dots> = m" by simp
      finally show ?thesis .
    qed
  qed
qed

lemma dialogue_error_inj: "dialogue_error i = dialogue_error j \<Longrightarrow> i = j"
proof -
  assume "dialogue_error i = dialogue_error j"
  then have "str_nat (i + 1) = str_nat (j + 1)"
    by (simp add: dialogue_error_def)
  from str_nat_inj [OF this] show "i = j" by simp
qed

lemma action_not_unattributed:
  "truthy (is_action (lines ! i)) \<Longrightarrow> \<not> unattributed_dialogue lines i"
  by (simp add: unattributed_dialogue_def)

lemma action_not_reported:
  assumes "v_scene_issues st =
          map dialogue_error (filter (unattributed_dialogue lines) [0..<length lines])"
    and "truthy (is_action (lines ! i))"
  shows "dialogue_error i \<notin> set (v_scene_issues st)"
proof
  assume "dialogue_error i \<in> set (v_scene_issues st)"
  then have "dialogue_error i
      \<in> dialogue_error ` set (filter (unattributed_dialogue lines) [0..<length lines])"
    unfolding assms(1) by (simp only: set_map)
  then obtain k where k: "k \<in> set (filter (unattributed_dialogue lines) [0..<length lines])"
    and e: "dialogue_error i = dialogue_error k"
    by (rule imageE)
  from dialogue_error_inj [OF e] k have "unattributed_dialogue lines i" by simp
  with action_not_unattributed [OF assms(2)] show False by simp
qed

lemma action_nonblank: "truthy (is_action l) \<Longrightarrow> strip l \<noteq> []"
  using blank_not_action by blast

lemma action_not_heading_transition:
  "truthy (is_action l) \<Longrightarrow> \<not> is_scene_heading l \<and> \<not> is_transition l"
  using is_scene_heading_strip [of l] is_transition_strip [of l]
  by (auto simp: is_action_def Let_def py_and_def split: if_splits)

lemma validator_step_action:
  assumes "truthy (is_action l)"
  shows "validator_step lines st (i, l) = Inr (st\<lparr>v_action_present := True\<rparr>)"
proof -
  from assms have ne: "strip l \<noteq> []" by (rule action_nonblank)
  from action_not_heading_transition [OF assms]
  have nh: "\<not> is_scene_heading l" and nt: "\<not> is_transition l" by simp_all
  from ne nh nt assms show ?thesis
    by (simp add: validator_step_def is_scene_heading_strip is_transition_strip is_action_strip)
qed

lemma validator_step_unattributed:
  assumes "i < length lines" and "unattributed_dialogue lines i"
  shows "validator_step lines st (i, lines ! i) =
     Inr (st\<lparr>v_character_lines := add_count UNKNOWN 1 (v_character_lines st),
              v_scene_issues := v_scene_issues st @ [dialogue_error i]\<rparr>)"
proof -
  let ?l = "lines ! i"
  from assms(2) have nh: "\<not> is_scene_heading ?l" and nt: "\<not> is_transition ?l"
    and na: "\<not> truthy (is_action ?l)" and d: "truthy (is_dialogue ?l)"
    and direct: "\<not> (1 \<le> i \<and> is_character_name (lines ! (i - 1)))"
    and through: "\<not> (2 \<le> i \<and> is_emotion (lines ! (i - 1)) \<and> is_character_name (lines ! (i - 2)))"
    by (simp_all add: unattributed_dialogue_def)
  from d have ne: "strip ?l \<noteq> []" by (rule dialogue_nonblank)
  have step: "validator_step lines st (i, ?l) = attribute_dialogue lines st i"
    using ne nh nt na d
    by (simp add: validator_step_def is_scene_heading_strip is_transition_strip
        is_action_strip is_dialogue_strip)
  have cb: "cue_before lines i = Inr False"
    using direct by (simp only: cue_before_eq [OF assms(1)])
  have ce: "cue_before_emotion lines i = Inr False"
    using through by (simp only: cue_before_emotion_eq [OF assms(1)])
  show ?thesis
    unfolding step attribute_dialogue_def cb ce err_bind_def by simp
qed

lemma ct_step_unknown_count:
  assumes "truthy (is_dialogue l)" and "ct_current_character t = None"
  shows "count_of (ct_character_lines (ct_step t l)) UNKNOWN
           = count_of (ct_character_lines t) UNKNOWN + 1"
  by (simp add: ct_step_unknown [OF assms] count_of_add_count)

text \<open>
  C7, as the code has it. For every script, scene\_structure\_validator and
  character\_tracking return a report and raise nothing (no read out of range, no division
  by zero), and \<open>is_action\<close> and \<open>is_dialogue\<close> return the empty string or a Boolean.
  In scene\_structure\_validator a line that reaches the dialogue branch (dialogue that is
  not action, so ending in a question or exclamation mark) and has no character cue just
  before it, directly or through one parenthetical, adds one to the count of UNKNOWN and
  its error line to the scene issues: after the loop the scene issues are the error lines
  of exactly these lines, in order, each of them is in the report, and the count of
  UNKNOWN is at least their number. A line that \<open>is_action\<close> accepts, dialogue or not, only
  sets \<open>action_present\<close>: nothing is counted for it and its error line is not among the
  scene issues. In character\_tracking a dialogue line scanned with no current speaker adds
  one to the count of UNKNOWN, which is then a key of the dictionary, and the report then
  has the warning line.
\<close>

theorem analyses_return_and_report_unknown:
  "(\<exists>r. scene_structure_validator script = Inr r)
   \<and> (\<exists>r. character_tracking percent_text script = Inr r)
   \<and> (is_action line = PStr [] \<or> (\<exists>b. is_action line = PBool b))
   \<and> (is_dialogue line = PStr [] \<or> (\<exists>b. is_dialogue line = PBool b))
   \<and> (\<exists>st. validator_scan lines = Inr st
        \<and> v_scene_issues st =
             map dialogue_error (filter (unattributed_dialogue lines) [0..<length lines])
        \<and> length (filter (unattributed_dialogue lines) [0..<length lines])
             \<le> count_of (v_character_lines st) UNKNOWN
        \<and> (\<forall>i < length lines. unattributed_dialogue lines i \<longrightarrow>
              dialogue_error i \<in> set (v_scene_issues st)
              \<and> ''    - '' @ dialogue_error i \<in> set (validator_report st))
        \<and> (\<forall>i < length lines. truthy (is_action (lines ! i)) \<longrightarrow>
              dialogue_error i \<notin> set (v_scene_issues st)))
   \<and> (j < length lines \<and> unattributed_dialogue lines j \<longrightarrow>
        validator_step lines st0 (j, lines ! j) =
          Inr (st0\<lparr>v_character_lines := add_count UNKNOWN 1 (v_character_lines st0),
                   v_scene_issues := v_scene_issues st0 @ [dialogue_error j]\<rparr>)
        \<and> count_of (add_count UNKNOWN 1 (v_character_lines st0)) UNKNOWN
            = count_of (v_character_lines st0) UNKNOWN + 1)
   \<and> (truthy (is_action line) \<longrightarrow>
        validator_step lines st0 (j, line) = Inr (st0\<lparr>v_action_present := True\<rparr>))
   \<and> (truthy (is_dialogue l) \<and> ct_current_character t = None \<longrightarrow>
        count_of (ct_character_lines (ct_step t l)) UNKNOWN
          = count_of (ct_character_lines t) UNKNOWN + 1)
   \<and> (truthy (is_dialogue l) \<and> ct_current_character (ct_scan pre) = None \<longrightarrow>
        UNKNOWN \<in> fst ` set (ct_character_lines (ct_scan (pre @ l # post))))
   \<and> (\<exists>rl. ct_report percent_text (ct_scan ls) = Inr rl
        \<and> (UNKNOWN \<in> fst ` set (ct_character_lines (ct_scan ls)) \<longrightarrow>
             ''    - '' @ warning_sign @ '' Some dialogue has no character assigned'' \<in> set rl))"
proof -
  from validator_scan_effect [of lines] obtain st where
    run: "validator_scan lines = Inr st"
    and iss: "v_scene_issues st =
          map dialogue_error (filter (unattributed_dialogue lines) [0..<length lines])"
    and cnt: "length (filter (unattributed_dialogue lines) [0..<length lines])
          \<le> count_of (v_character_lines st) UNKNOWN"
    by blast
  have rep: "\<forall>i < length lines. unattributed_dialogue lines i \<longrightarrow>
              dialogue_error i \<in> set (v_scene_issues st)
              \<and> ''    - '' @ dialogue_error i \<in> set (validator_report st)"
    using unattributed_reported [OF run iss cnt] by blast
  have act: "\<forall>i < length lines. truthy (is_action (lines ! i)) \<longrightarrow>
              dialogue_error i \<notin> set (v_scene_issues st)"
    using action_not_reported [OF iss] by blast
  have v: "\<exists>st. validator_scan lines = Inr st
        \<and> v_scene_issues st =
             map dialogue_error (filter (unattributed_dialogue lines) [0..<length lines])
        \<and> length (filter (unattributed_dialogue lines) [0..<length lines])
             \<le> count_of (v_character_lines st) UNKNOWN
        \<and> (\<forall>i < length lines. unattributed_dialogue lines i \<longrightarrow>
              dialogue_error i \<in> set (v_scene_issues st)
              \<and> ''    - '' @ dialogue_error i \<in> set (validator_report st))
        \<and> (\<forall>i < length lines. truthy (is_action (lines ! i)) \<longrightarrow>
              dialogue_error i \<notin> set (v_scene_issues st))"
    using run iss cnt rep act by blast
  have u: "j < length lines \<and> unattributed_dialogue lines j \<longrightarrow>
        validator_step lines st0 (j, lines ! j) =
          Inr (st0\<lparr>v_character_lines := add_count UNKNOWN 1 (v_character_lines st0),
                   v_scene_issues := v_scene_issues st0 @ [dialogue_error j]\<rparr>)
        \<and> count_of (add_count UNKNOWN 1 (v_character_lines st0)) UNKNOWN
            = count_of (v_character_lines st0) UNKNOWN + 1"
    using validator_step_unattributed [of j lines st0] by (simp add: count_of_add_count)
  have a: "truthy (is_action line) \<longrightarrow>
        validator_step lines st0 (j, line) = Inr (st0\<lparr>v_action_present := True\<rparr>)"
    using validator_step_action [of line lines st0 j] by blast
  have s: "truthy (is_dialogue l) \<and> ct_current_character t = None \<longrightarrow>
        count_of (ct_character_lines (ct_step t l)) UNKNOWN
          = count_of (ct_character_lines t) UNKNOWN + 1"
    using ct_step_unknown_count [of l t] by blast
  have k: "truthy (is_dialogue l) \<and> ct_current_character (ct_scan pre) = None \<longrightarrow>
        UNKNOWN \<in> fst ` set (ct_character_lines (ct_scan (pre @ l # post)))"
    using ct_unknown_counted [of l pre post] by blast
  show ?thesis
    by (intro conjI)
      (rule scene_structure_validator_returns character_tracking_returns is_action_shape
        is_dialogue_shape v u a s k ct_report_total)+
qed

theorem analyses_return_and_report_unknown_witness:
  "(\<exists>st. validator_scan [''BOB'', ''Hello there.'', ''Who is there?'', [], ''Why?''] = Inr st
      \<and> 2 \<le> count_of (v_character_lines st) UNKNOWN
      \<and> dialogue_error 4 \<in> set (v_scene_issues st)
      \<and> dialogue_error 1 \<notin> set (v_scene_issues st))
   \<and> validator_step [''BOB'', ''Hello there.'', ''Who is there?'', [], ''Why?'']
        (v_init\<lparr>v_scene_count := 3\<rparr>) (1, ''Hello there.'')
      = Inr (v_init\<lparr>v_scene_count := 3, v_action_present := True\<rparr>)"
proof -
  let ?L = "[''BOB'', ''Hello there.'', ''Who is there?'', [], ''Why?'']"
  have h4: "4 < length ?L \<and> unattributed_dialogue ?L 4" by code_simp
  have h1: "1 < length ?L \<and> truthy (is_action (?L ! 1))" by code_simp
  have n: "length (filter (unattributed_dialogue ?L) [0..<length ?L]) = 2" by code_simp
  have ac: "truthy (is_action ''Hello there.'')" by code_simp
  note T = analyses_return_and_report_unknown [of "[]" "\<lambda>_ _. []" "''Hello there.''" ?L 1
      "v_init\<lparr>v_scene_count := 3\<rparr>" "[]" ct_init "[]" "[]" "[]"]
  from T [THEN conjunct2, THEN conjunct2, THEN conjunct2, THEN conjunct2, THEN conjunct1]
  obtain st where run: "validator_scan ?L = Inr st"
    and cnt: "length (filter (unattributed_dialogue ?L) [0..<length ?L])
             \<le> count_of (v_character_lines st) UNKNOWN"
    and rep: "\<forall>i < length ?L. unattributed_dialogue ?L i \<longrightarrow>
              dialogue_error i \<in> set (v_scene_issues st)
              \<and> ''    - '' @ dialogue_error i \<in> set (validator_report st)"
    and act: "\<forall>i < length ?L. truthy (is_action (?L ! i)) \<longrightarrow>
              dialogue_error i \<notin> set (v_scene_issues st)"
    by blast
  from cnt n have c2: "2 \<le> count_of (v_character_lines st) UNKNOWN" by (simp only:)
  from rep h4 have r4: "dialogue_error 4 \<in> set (v_scene_issues st)" by blast
  from act h1 have r1: "dialogue_error 1 \<notin> set (v_scene_issues st)" by blast
  from T [THEN conjunct2, THEN conjunct2, THEN conjunct2, THEN conjunct2, THEN conjunct2,
      THEN conjunct2, THEN conjunct1, rule_format, OF ac]
  have stp: "validator_step ?L (v_init\<lparr>v_scene_count := 3\<rparr>) (1, ''Hello there.'')
      = Inr (v_init\<lparr>v_scene_count := 3, v_action_present := True\<rparr>)"
    by simp
  from run c2 r4 r1 stp show ?thesis by blast
qed

text \<open>
  C7 as stated fails: \<open>Hello there.\<close> is a dialogue line with no cue before it, yet
  scene\_structure\_validator takes it as action, counts nothing under UNKNOWN and reports
  no issue.
\<close>

theorem dialogue_taken_as_action_not_reported:
  "truthy (is_dialogue ''Hello there.'')
   \<and> validator_scan [''Hello there.''] = Inr (v_init\<lparr>v_action_present := True\<rparr>)
   \<and> v_character_lines (v_init\<lparr>v_action_present := True\<rparr>) = []
   \<and> v_scene_issues (v_init\<lparr>v_action_present := True\<rparr>) = []"
  by code_simp

section \<open>What the patterns match, and the order of the rendering rules\<close>





lemma orelse_not_None: "(orelse a b \<noteq> None) = (a \<noteq> None \<or> b \<noteq> None)"
  by (cases a) (simp_all add: orelse_def)




































section \<open>Two runs on the same text\<close>







text \<open>
  Both invocations on a short script, the second run in the state the first one left:
  the same report and the same rendering twice.
\<close>

lemma two_runs_on_a_short_script:
  "fst (format_script_call module_init ''cut to:'') = replicate 53 CHR '' '' @ ''CUT TO:''
   \<and> fst (format_script_call (snd (format_script_call module_init ''cut to:'')) ''cut to:'')
       = replicate 53 CHR '' '' @ ''CUT TO:''"
  by code_simp

end
